theory Spec2Isabelle
  imports Complex_Main "HOL-Library.AList" "HOL-Library.Multiset"
begin

section \<open>Fragment annotations of spectrum\_utils\<close>

text \<open>
  A shallow embedding of \<^verbatim>\<open>spectrum_utils/fragment_annotation.py\<close>.
  Python strings are \<open>string\<close> (8-bit characters), Python integers are \<open>int\<close>,
  Python floats are idealised as \<open>real\<close>, \<open>Optional[t]\<close> is \<open>t option\<close>, and
  every \<^verbatim>\<open>raise\<close> is a value of the type \<open>error\<close> returned on the left
  of a sum.
\<close>

subsection \<open>Exceptions\<close>

datatype error =
    IndexError \<comment> \<open>\<^verbatim>\<open>ion_type[0]\<close> on the empty string, or a list index out of range\<close>
  | NotImplementedError \<comment> \<open>"Advanced ion types are not yet supported"\<close>
  | ValueError_ion_type \<comment> \<open>"Unknown ion type"\<close>
  | ValueError_unknown_extra \<comment> \<open>"Unknown ions should not contain additional information"\<close>
  | ValueError_unknown_charge \<comment> \<open>"Invalid charge for unknown ions"\<close>
  | ValueError_charge \<comment> \<open>"The charge must be specified and strictly positive ..."\<close>
  | ValueError_mz_delta_unit \<comment> \<open>"The m/z delta must be specified in Dalton or ppm units"\<close>
  | ValueError_ambiguous_B \<comment> \<open>"Explicitly specify aspartic acid (D) or asparagine (N) ..."\<close>
  | ValueError_ambiguous_Z \<comment> \<open>"Explicitly specify glutamic acid (E) or glutamine (Q) ..."\<close>
  | TypeError \<comment> \<open>an operator applied to operands it is not defined for\<close>
  | ZeroDivisionError
  | PyteomicsError_residue char \<comment> \<open>"No mass data for residue: ..."\<close>
  | PyteomicsError_ion_type string \<comment> \<open>"Unknown ion type: ..."\<close>

subsection \<open>Formatting integers as Python does\<close>

definition digit_char :: "nat \<Rightarrow> char" where
  "digit_char d = ''0123456789'' ! d"

definition is_digit :: "char \<Rightarrow> bool" where
  "is_digit c = (c \<in> set ''0123456789'')"

fun str_nat :: "nat \<Rightarrow> string" where
  "str_nat n = (if n < 10 then [digit_char n] else str_nat (n div 10) @ [digit_char (n mod 10)])"

declare str_nat.simps [simp del]

definition str_int :: "int \<Rightarrow> string" where
  \<comment> \<open>\<^verbatim>\<open>f"{i}"\<close>\<close>
  "str_int i = (if i < 0 then ''-'' @ str_nat (nat (- i)) else str_nat (nat i))"

definition str_int_signed :: "int \<Rightarrow> string" where
  \<comment> \<open>\<^verbatim>\<open>f"{i:+}"\<close>\<close>
  "str_int_signed i = (if i < 0 then ''-'' @ str_nat (nat (- i)) else ''+'' @ str_nat (nat i))"

definition str_opt_int :: "int option \<Rightarrow> string" where
  \<comment> \<open>\<^verbatim>\<open>f"{c}"\<close> for an \<^verbatim>\<open>Optional[int]\<close>\<close>
  "str_opt_int c = (case c of None \<Rightarrow> ''None'' | Some i \<Rightarrow> str_int i)"

subsection \<open>The regular expression of the default adduct\<close>

text \<open>
  \<^verbatim>\<open>re.match(r"\[M\+\d+H\]", s)\<close> looks for a match that starts at the first
  character of \<open>s\<close> and may end anywhere.  A pattern is a list of tokens; a token is a
  literal character or \<^verbatim>\<open>\d+\<close>.  On 8-bit characters \<^verbatim>\<open>\d\<close> is \<open>0..9\<close>.
\<close>

datatype re_tok = Lit char | Digits1

fun re_match :: "re_tok list \<Rightarrow> string \<Rightarrow> bool" where
  "re_match [] s = True"
| "re_match (Lit c # p) [] = False"
| "re_match (Lit c # p) (x # xs) = (x = c \<and> re_match p xs)"
| "re_match (Digits1 # p) [] = False"
| "re_match (Digits1 # p) (x # xs) =
     (is_digit x \<and> (re_match (Digits1 # p) xs \<or> re_match p xs))"

definition default_adduct_re :: "re_tok list" where
  \<comment> \<open>\<^verbatim>\<open>r"\[M\+\d+H\]"\<close>\<close>
  "default_adduct_re = map Lit ''[M+'' @ [Digits1] @ map Lit ''H]''"

subsection \<open>FragmentAnnotation\<close>

record FragmentAnnotation =
  ion_type :: string
  neutral_loss :: "string option"
  isotope :: int
  charge :: "int option"
  adduct :: string
  analyte_number :: "int option"
  mz_delta :: "(real \<times> string) option"

definition charge_setter :: "string \<Rightarrow> int option \<Rightarrow> error + int option" where
  "charge_setter it c =
     (if it = ''?'' \<and> c \<noteq> None then Inl ValueError_unknown_charge
      else if it \<noteq> ''?'' \<and> (case c of None \<Rightarrow> True | Some n \<Rightarrow> n \<le> 0)
        then Inl ValueError_charge
      else Inr c)"

definition mz_delta_setter :: "(real \<times> string) option \<Rightarrow> error + (real \<times> string) option" where
  "mz_delta_setter md =
     (case md of
        None \<Rightarrow> Inr None
      | Some (d, u) \<Rightarrow>
          if u \<noteq> ''Da'' \<and> u \<noteq> ''ppm'' then Inl ValueError_mz_delta_unit else Inr md)"

definition FragmentAnnotation_init ::
  "string \<Rightarrow> string option \<Rightarrow> int \<Rightarrow> int option \<Rightarrow> string option \<Rightarrow> int option
     \<Rightarrow> (real \<times> string) option \<Rightarrow> error + FragmentAnnotation" where
  "FragmentAnnotation_init it nl isot c ad an md =
     (case it of
        [] \<Rightarrow> Inl IndexError
      | c0 # _ \<Rightarrow>
          if c0 \<in> set ''GLXS'' then Inl NotImplementedError
          else if c0 \<notin> set ''?abcxyzIm_prf'' then Inl ValueError_ion_type
          else if it = ''?'' \<and> (nl \<noteq> None \<or> isot \<noteq> 0 \<or> c \<noteq> None \<or> ad \<noteq> None
                                  \<or> an \<noteq> None \<or> md \<noteq> None)
            then Inl ValueError_unknown_extra
          else
            (case charge_setter it c of
               Inl e \<Rightarrow> Inl e
             | Inr c' \<Rightarrow>
                 (case mz_delta_setter md of
                    Inl e \<Rightarrow> Inl e
                  | Inr md' \<Rightarrow>
                      Inr \<lparr>ion_type = it, neutral_loss = nl, isotope = isot, charge = c',
                           adduct = (case ad of None \<Rightarrow> ''[M+'' @ str_opt_int c' @ ''H]''
                                     | Some a \<Rightarrow> a),
                           analyte_number = an, mz_delta = md'\<rparr>)))"

text \<open>
  \<^verbatim>\<open>__str__\<close>.  The text of a float (\<^verbatim>\<open>f"{self.mz_delta[0]}"\<close>) is a
  parameter, \<open>str_float\<close>.
\<close>

definition FragmentAnnotation_str :: "(real \<Rightarrow> string) \<Rightarrow> FragmentAnnotation \<Rightarrow> string" where
  "FragmentAnnotation_str str_float f =
     (if ion_type f = ''?'' then ''?''
      else concat
        ((case analyte_number f of None \<Rightarrow> [] | Some n \<Rightarrow> [str_int n @ ''@''])
         @ [ion_type f]
         @ (case neutral_loss f of None \<Rightarrow> [] | Some l \<Rightarrow> [l])
         @ (if \<bar>isotope f\<bar> = 1 then [if isotope f > 0 then ''+i'' else ''-i'']
            else if isotope f \<noteq> 0 then [str_int_signed (isotope f) @ ''i'']
            else [])
         @ (case charge f of None \<Rightarrow> [] | Some c \<Rightarrow> if c > 1 then [''^'' @ str_int c] else [])
         @ (if \<not> re_match default_adduct_re (adduct f) then [adduct f] else [])
         @ (case mz_delta f of
              None \<Rightarrow> []
            | Some (d, u) \<Rightarrow> [''/'' @ str_float d @ (if u = ''ppm'' then ''ppm'' else '''')])))"

definition FragmentAnnotation_eq ::
  "(real \<Rightarrow> string) \<Rightarrow> FragmentAnnotation \<Rightarrow> FragmentAnnotation \<Rightarrow> bool" where
  \<comment> \<open>\<^verbatim>\<open>__eq__\<close> between two annotations\<close>
  "FragmentAnnotation_eq str_float f g =
     (FragmentAnnotation_str str_float f = FragmentAnnotation_str str_float g)"


subsection \<open>Proteoforms and the mass tables\<close>

text \<open>
  The peptide representation (\<^verbatim>\<open>proforma.Proteoform\<close>) is defined in another
  module; the generator reads a sequence and an optional list of modifications,
  and of each modification a position, which it tests with \<^verbatim>\<open>isinstance\<close> for
  \<^verbatim>\<open>str\<close> and \<^verbatim>\<open>int\<close>, and a mass.  A modification is a plain object: it
  defines no arithmetic.
\<close>

datatype mod_position = PInt int | PStr string

record Modification =
  position :: mod_position
  mass :: real

record Proteoform =
  sequence :: string
  modifications :: "Modification list option"

text \<open>
  What the generator imports from Pyteomics: the standard residue masses, and the
  constants that its mass routines use.
\<close>

record pyteomics =
  std_aa_mass :: "(char \<times> real) list"
  std_ion_comp :: "(string \<times> real) list" \<comment> \<open>mass of the composition of each ion type\<close>
  mass_H2O :: real
  mass_proton :: real
  mass_CO :: real \<comment> \<open>\<^verbatim>\<open>calculate_mass(formula="CO")\<close>\<close>
  mass_H :: real \<comment> \<open>\<^verbatim>\<open>calculate_mass(formula="H")\<close>\<close>

definition aa_mass :: "pyteomics \<Rightarrow> (char \<times> real) list" where
  \<comment> \<open>\<^verbatim>\<open>_aa_mass = {**pmass.std_aa_mass, "J": 113.08406, "X": 0}\<close>\<close>
  "aa_mass P = AList.update CHR ''X'' 0 (AList.update CHR ''J'' 113.08406 (std_aa_mass P))"

definition neutral_loss_table :: "(string option \<times> real) list" where
  \<comment> \<open>\<^verbatim>\<open>_neutral_loss\<close>\<close>
  "neutral_loss_table =
     [(None, 0), (Some ''H'', - 1.007825), (Some ''NH3'', - 17.026549),
      (Some ''H2O'', - 18.010565), (Some ''CO'', - 27.994915), (Some ''CO2'', - 43.989829),
      (Some ''HCONH2'', - 45.021464), (Some ''HCOOH'', - 46.005479),
      (Some ''CH4OS'', - 63.998301), (Some ''SO3'', - 79.956818), (Some ''HPO3'', - 79.966331),
      (Some ''C2H5NOS'', - 91.009195), (Some ''C2H4O2S'', - 91.993211),
      (Some ''H3PO4'', - 97.976896)]"

fun sum_aa :: "(char \<times> real) list \<Rightarrow> string \<Rightarrow> error + real" where
  "sum_aa tab [] = Inr 0"
| "sum_aa tab (r # rs) =
     (case map_of tab r of
        None \<Rightarrow> Inl (PyteomicsError_residue r)
      | Some m \<Rightarrow> (case sum_aa tab rs of Inl e \<Rightarrow> Inl e | Inr s \<Rightarrow> Inr (m + s)))"

definition fast_mass ::
  "pyteomics \<Rightarrow> string \<Rightarrow> string \<Rightarrow> int \<Rightarrow> (char \<times> real) list \<Rightarrow> error + real" where
  \<comment> \<open>Modelled from the spec: the external mass-calculation routine
      \<^verbatim>\<open>pmass.fast_mass(sequence, ion_type, charge, aa_mass)\<close> of Pyteomics, which
      is not part of the repository: the residue masses of the sequence are summed (an
      unknown residue raises), water and the composition of the ion type are added, and
      the result is converted to m/z with the mass of the proton.\<close>
  "fast_mass P sequ it c tab =
     (case sum_aa tab sequ of
        Inl e \<Rightarrow> Inl e
      | Inr s \<Rightarrow>
          (case (if it = [] then Some 0 else map_of (std_ion_comp P) it) of
             None \<Rightarrow> Inl (PyteomicsError_ion_type it)
           | Some ic \<Rightarrow>
               Inr (if c \<noteq> 0
                    then (s + mass_H2O P + ic + mass_proton P * real_of_int c) / real_of_int c
                    else s + mass_H2O P + ic)))"

subsection \<open>Sequencing computations that may raise\<close>

definition bind_err :: "error + 'a \<Rightarrow> ('a \<Rightarrow> error + 'b) \<Rightarrow> error + 'b" where
  "bind_err m f = (case m of Inl e \<Rightarrow> Inl e | Inr x \<Rightarrow> f x)"

fun fold_err :: "('a \<Rightarrow> 's \<Rightarrow> error + 's) \<Rightarrow> 'a list \<Rightarrow> 's \<Rightarrow> error + 's" where
  "fold_err f [] s = Inr s"
| "fold_err f (x # xs) s = bind_err (f x s) (fold_err f xs)"

fun map_err :: "('a \<Rightarrow> error + 'b) \<Rightarrow> 'a list \<Rightarrow> error + 'b list" where
  "map_err f [] = Inr []"
| "map_err f (x # xs) =
     bind_err (f x) (\<lambda>y. bind_err (map_err f xs) (\<lambda>ys. Inr (y # ys)))"

subsection \<open>The base fragments\<close>

datatype fragment_i = FInt int | FStr string

type_synonym base_fragment = "string \<times> string \<times> fragment_i \<times> real"

text \<open>The two \<^verbatim>\<open>while\<close> loops of the N-terminal walk, on a list of modifications.\<close>

function skip_unlocalized :: "Modification list \<Rightarrow> nat \<Rightarrow> nat" where
  "skip_unlocalized ms mod_i =
     (if mod_i < length ms
         \<and> (case position (ms ! mod_i) of PStr s \<Rightarrow> s \<noteq> ''N-term'' | PInt p \<Rightarrow> False)
      then skip_unlocalized ms (mod_i + 1)
      else mod_i)"
  by pat_completeness auto
termination
  by (relation "measure (\<lambda>(ms, mod_i). length ms - mod_i)") auto

declare skip_unlocalized.simps [simp del]

function include_prefix :: "Modification list \<Rightarrow> int \<Rightarrow> nat \<times> real \<Rightarrow> nat \<times> real" where
  "include_prefix ms fragment_i (mod_i, mod_mass) =
     (if mod_i < length ms
         \<and> (case position (ms ! mod_i) of PStr s \<Rightarrow> s = ''N-term'' | PInt p \<Rightarrow> p < fragment_i)
      then include_prefix ms fragment_i (mod_i + 1, mod_mass + mass (ms ! mod_i))
      else (mod_i, mod_mass))"
  by pat_completeness auto
termination
  by (relation "measure (\<lambda>(ms, fragment_i, mod_i, mod_mass). length ms - mod_i)") auto

declare include_prefix.simps [simp del]

definition n_term_step ::
  "Proteoform \<Rightarrow> char \<Rightarrow> nat \<Rightarrow> nat \<times> real \<times> base_fragment list
     \<Rightarrow> nat \<times> real \<times> base_fragment list" where
  "n_term_step pf it fragment_i st =
     (case st of (mod_i, mod_mass, base_fragments) \<Rightarrow>
        (case (case modifications pf of
                 None \<Rightarrow> (mod_i, mod_mass)
               | Some ms \<Rightarrow>
                   include_prefix ms (int fragment_i) (skip_unlocalized ms mod_i, mod_mass))
         of (mod_i', mod_mass') \<Rightarrow>
           (mod_i', mod_mass',
            base_fragments
              @ [(take fragment_i (sequence pf), [it], FInt (int fragment_i), mod_mass')])))"

definition n_term_fragments ::
  "Proteoform \<Rightarrow> char list \<Rightarrow> nat \<times> real \<times> base_fragment list
     \<Rightarrow> nat \<times> real \<times> base_fragment list" where
  \<comment> \<open>the cursor and the accumulator are set once, before the loop over the ion types\<close>
  "n_term_fragments pf its st =
     fold (\<lambda>it. fold (n_term_step pf it) [1..<length (sequence pf)]) its st"

text \<open>
  The \<^verbatim>\<open>while\<close> loop of the C-terminal walk.  It tests \<^verbatim>\<open>mod_i >= 0\<close> only;
  an index beyond the list would raise.
\<close>

function include_suffix ::
  "Modification list \<Rightarrow> int \<Rightarrow> int \<times> real \<Rightarrow> error + int \<times> real" where
  "include_suffix ms fragment_i (mod_i, mod_mass) =
     (if mod_i \<ge> 0 then
        (if mod_i \<ge> int (length ms) then Inl IndexError
         else if (case position (ms ! nat mod_i) of
                    PStr s \<Rightarrow> s = ''C-term'' | PInt p \<Rightarrow> p \<ge> fragment_i)
           then include_suffix ms fragment_i (mod_i - 1, mod_mass + mass (ms ! nat mod_i))
           else Inr (mod_i, mod_mass))
      else Inr (mod_i, mod_mass))"
  by pat_completeness auto
termination
  by (relation "measure (\<lambda>(ms, fragment_i, mod_i, mod_mass). nat (mod_i + 1))") auto

declare include_suffix.simps [simp del]

definition c_term_step ::
  "Proteoform \<Rightarrow> char \<Rightarrow> nat \<Rightarrow> int \<times> real \<times> base_fragment list
     \<Rightarrow> error + int \<times> real \<times> base_fragment list" where
  "c_term_step pf it fragment_i st =
     (case st of (mod_i, mod_mass, base_fragments) \<Rightarrow>
        bind_err
          (case modifications pf of
             None \<Rightarrow> Inr (mod_i, mod_mass)
           | Some ms \<Rightarrow> include_suffix ms (int fragment_i) (mod_i, mod_mass))
          (\<lambda>(mod_i', mod_mass').
             Inr (mod_i', mod_mass',
                  base_fragments
                    @ [(drop fragment_i (sequence pf), [it],
                        FInt (int (length (sequence pf)) - int fragment_i), mod_mass')])))"

definition c_term_fragments ::
  "Proteoform \<Rightarrow> char list \<Rightarrow> int \<times> real \<times> base_fragment list
     \<Rightarrow> error + int \<times> real \<times> base_fragment list" where
  "c_term_fragments pf its st =
     fold_err (\<lambda>it. fold_err (c_term_step pf it) (rev [1..<length (sequence pf)])) its st"


text \<open>
  The internal fragments.  The first loop skips the symbolic and the prefix
  modifications.  The second loop compares a position with \<^verbatim>\<open>stop_i\<close>, which
  raises for a symbolic position, and its body,
  \<^verbatim>\<open>mod_mass += proteoform.modifications[mod_i_stop]\<close>, adds the modification
  itself to a number, which raises: no iteration of it completes.
\<close>

function skip_prefix :: "Modification list \<Rightarrow> int \<Rightarrow> nat \<Rightarrow> nat" where
  "skip_prefix ms start_i mod_i_start =
     (if mod_i_start < length ms
         \<and> (case position (ms ! mod_i_start) of PStr s \<Rightarrow> True | PInt p \<Rightarrow> p < start_i)
      then skip_prefix ms start_i (mod_i_start + 1)
      else mod_i_start)"
  by pat_completeness auto
termination
  by (relation "measure (\<lambda>(ms, start_i, mod_i_start). length ms - mod_i_start)") auto

declare skip_prefix.simps [simp del]

definition include_internal ::
  "Modification list \<Rightarrow> int \<Rightarrow> nat \<times> real \<Rightarrow> error + nat \<times> real" where
  "include_internal ms stop_i st =
     (case st of (mod_i_stop, mod_mass) \<Rightarrow>
        if mod_i_stop < length ms then
          (case position (ms ! mod_i_stop) of
             PStr s \<Rightarrow> Inl TypeError
           | PInt p \<Rightarrow> if p < stop_i then Inl TypeError else Inr (mod_i_stop, mod_mass))
        else Inr (mod_i_stop, mod_mass))"

definition internal_stop_step ::
  "Proteoform \<Rightarrow> nat \<Rightarrow> nat \<Rightarrow> nat \<times> real \<times> base_fragment list
     \<Rightarrow> error + nat \<times> real \<times> base_fragment list" where
  "internal_stop_step pf start_i stop_i st =
     (case st of (mod_i_stop, mod_mass, base_fragments) \<Rightarrow>
        bind_err
          (case modifications pf of
             None \<Rightarrow> Inr (mod_i_stop, mod_mass)
           | Some ms \<Rightarrow> include_internal ms (int stop_i) (mod_i_stop, mod_mass))
          (\<lambda>(mod_i_stop', mod_mass').
             Inr (mod_i_stop', mod_mass',
                  base_fragments
                    @ [(drop start_i (take stop_i (sequence pf)), ''b'',
                        FStr (str_int (int start_i + 1) @ '':'' @ str_int (int stop_i + 1)),
                        mod_mass')])))"

definition internal_start_step ::
  "Proteoform \<Rightarrow> nat \<Rightarrow> base_fragment list \<Rightarrow> error + base_fragment list" where
  "internal_start_step pf start_i base_fragments =
     (let mod_i_start =
            (case modifications pf of None \<Rightarrow> 0 | Some ms \<Rightarrow> skip_prefix ms (int start_i) 0)
      in bind_err
           (fold_err (internal_stop_step pf start_i) [start_i + 2..<length (sequence pf)]
              (mod_i_start, 0, base_fragments))
           (\<lambda>(mod_i_stop, mod_mass, base_fragments'). Inr base_fragments'))"

definition internal_fragments ::
  "Proteoform \<Rightarrow> base_fragment list \<Rightarrow> error + base_fragment list" where
  "internal_fragments pf base_fragments =
     fold_err (internal_start_step pf) [1..<length (sequence pf)] base_fragments"

definition precursor_fragment :: "Proteoform \<Rightarrow> base_fragment" where
  "precursor_fragment pf =
     (sequence pf, ''M'', FStr ''p'',
      (case modifications pf of None \<Rightarrow> 0 | Some ms \<Rightarrow> sum_list (map mass ms)))"

text \<open>
  All base fragments, in the order of the source.  The order in which Python iterates
  over the sets \<^verbatim>\<open>set("abc") & set(ion_types)\<close> and
  \<^verbatim>\<open>set("xyz") & set(ion_types)\<close> is not fixed by the language: it is the
  parameter \<open>set_iter\<close>.
\<close>

definition set_iter_ok :: "(char set \<Rightarrow> char list) \<Rightarrow> char set \<Rightarrow> bool" where
  "set_iter_ok set_iter S = (set (set_iter S) = S \<and> distinct (set_iter S))"

definition base_fragments_of ::
  "(char set \<Rightarrow> char list) \<Rightarrow> Proteoform \<Rightarrow> string \<Rightarrow> error + base_fragment list" where
  "base_fragments_of set_iter pf ion_types =
     (case n_term_fragments pf (set_iter (set ''abc'' \<inter> set ion_types)) (0, 0, []) of
        (n_mod_i, n_mod_mass, n_fragments) \<Rightarrow>
          bind_err
            (c_term_fragments pf (set_iter (set ''xyz'' \<inter> set ion_types))
               (case modifications pf of
                  Some ms \<Rightarrow> (int (length ms) - 1, 0, n_fragments)
                | None \<Rightarrow> (0, n_mod_mass, n_fragments)))
            (\<lambda>(c_mod_i, c_mod_mass, c_fragments).
               bind_err
                 (if CHR ''m'' \<in> set ion_types then internal_fragments pf c_fragments
                  else Inr c_fragments)
                 (\<lambda>m_fragments.
                    Inr (if CHR ''p'' \<in> set ion_types
                         then m_fragments @ [precursor_fragment pf]
                         else m_fragments))))"

subsection \<open>Charged masses, immonium ions, neutral losses\<close>

definition annot_type_of :: "string \<Rightarrow> fragment_i \<Rightarrow> string" where
  "annot_type_of it fi =
     (case fi of
        FStr s \<Rightarrow> if CHR '':'' \<in> set s then ''m'' @ s else if s = ''p'' then ''p'' else ''?''
      | FInt i \<Rightarrow> it @ str_int i)"

definition charged_fragment ::
  "pyteomics \<Rightarrow> base_fragment \<times> int \<Rightarrow> error + FragmentAnnotation \<times> real" where
  "charged_fragment P bc =
     (case bc of ((fragment_sequence, it, fi, mod_mass), c) \<Rightarrow>
        bind_err (FragmentAnnotation_init (annot_type_of it fi) None 0 (Some c) None None None)
          (\<lambda>annot.
             bind_err (fast_mass P fragment_sequence it c (aa_mass P))
               (\<lambda>m. Inr (annot, m + mod_mass / real_of_int c))))"

definition immonium_fragment ::
  "pyteomics \<Rightarrow> char \<times> real \<Rightarrow> error + FragmentAnnotation \<times> real" where
  "immonium_fragment P am =
     (case am of (aa, m) \<Rightarrow>
        bind_err (FragmentAnnotation_init (''I'' @ [aa]) None 0 (Some 1) None None None)
          (\<lambda>annot. Inr (annot, m - (mass_CO P - mass_H P))))"

definition fragments_masses_of ::
  "pyteomics \<Rightarrow> (char set \<Rightarrow> char list) \<Rightarrow> Proteoform \<Rightarrow> string \<Rightarrow> int
     \<Rightarrow> error + (FragmentAnnotation \<times> real) list" where
  "fragments_masses_of P set_iter pf ion_types max_charge =
     bind_err (base_fragments_of set_iter pf ion_types)
       (\<lambda>base_fragments.
          bind_err (map_err (charged_fragment P) (List.product base_fragments [1..max_charge]))
            (\<lambda>fragments_masses.
               if CHR ''I'' \<in> set ion_types
               then bind_err
                      (map_err (immonium_fragment P)
                         (filter (\<lambda>(aa, m). aa \<noteq> CHR ''X'') (aa_mass P)))
                      (\<lambda>immonium. Inr (fragments_masses @ immonium))
               else Inr fragments_masses))"

definition loss_fragment ::
  "(string \<times> real) \<times> (FragmentAnnotation \<times> real) \<Rightarrow> error + FragmentAnnotation \<times> real" where
  "loss_fragment lf =
     (case lf of ((name, mass_diff), (fragment, m)) \<Rightarrow>
        bind_err
          (FragmentAnnotation_init (ion_type fragment)
             (Some ((if mass_diff < 0 then ''-'' else ''+'') @ name)) 0 (charge fragment)
             None None None)
          (\<lambda>annot.
             (case charge fragment of
                None \<Rightarrow> Inl TypeError
              | Some c \<Rightarrow>
                  if c = 0 then Inl ZeroDivisionError
                  else Inr (annot, m + mass_diff / real_of_int c))))"

definition named_losses :: "(string option \<times> real) list \<Rightarrow> (string \<times> real) list" where
  \<comment> \<open>the entries the loop does not skip\<close>
  "named_losses nls =
     concat (map (\<lambda>(k, d). case k of None \<Rightarrow> [] | Some name \<Rightarrow> [(name, d)]) nls)"

definition neutral_loss_fragments ::
  "(string option \<times> real) list \<Rightarrow> (FragmentAnnotation \<times> real) list
     \<Rightarrow> error + (FragmentAnnotation \<times> real) list" where
  "neutral_loss_fragments nls fragments_masses =
     map_err loss_fragment (List.product (named_losses nls) fragments_masses)"

subsection \<open>The generator\<close>

definition unsorted_fragments ::
  "pyteomics \<Rightarrow> (char set \<Rightarrow> char list) \<Rightarrow> Proteoform \<Rightarrow> string \<Rightarrow> int
     \<Rightarrow> (string option \<times> real) list option \<Rightarrow> error + (FragmentAnnotation \<times> real) list" where
  "unsorted_fragments P set_iter pf ion_types max_charge neutral_losses =
     (if CHR ''B'' \<in> set (sequence pf) then Inl ValueError_ambiguous_B
      else if CHR ''Z'' \<in> set (sequence pf) then Inl ValueError_ambiguous_Z
      else
        bind_err (fragments_masses_of P set_iter pf ion_types max_charge)
          (\<lambda>fragments_masses.
             bind_err
               (neutral_loss_fragments
                  (case neutral_losses of None \<Rightarrow> [(None, 0)] | Some nls \<Rightarrow> nls)
                  fragments_masses)
               (\<lambda>losses. Inr (fragments_masses @ losses))))"

definition get_theoretical_fragments ::
  "pyteomics \<Rightarrow> (char set \<Rightarrow> char list) \<Rightarrow> Proteoform \<Rightarrow> string \<Rightarrow> int
     \<Rightarrow> (string option \<times> real) list option \<Rightarrow> error + (FragmentAnnotation \<times> real) list" where
  "get_theoretical_fragments P set_iter pf ion_types max_charge neutral_losses =
     bind_err (unsorted_fragments P set_iter pf ion_types max_charge neutral_losses)
       (\<lambda>fragments_masses. Inr (sort_key snd fragments_masses))"

subsection \<open>An instance of the external tables\<close>

text \<open>
  The tables of Pyteomics, rounded to five decimals, for evaluating the generator on
  concrete peptides, and two iteration orders of the sets of ion types.
\<close>

definition pyteomics_std :: pyteomics where
  "pyteomics_std =
     \<lparr>std_aa_mass =
        [(CHR ''G'', 57.02146), (CHR ''A'', 71.03711), (CHR ''S'', 87.03203),
         (CHR ''P'', 97.05276), (CHR ''V'', 99.06841), (CHR ''T'', 101.04768),
         (CHR ''C'', 103.00919), (CHR ''L'', 113.08406), (CHR ''I'', 113.08406),
         (CHR ''J'', 113.08406), (CHR ''N'', 114.04293), (CHR ''D'', 115.02694),
         (CHR ''Q'', 128.05858), (CHR ''K'', 128.09496), (CHR ''E'', 129.04259),
         (CHR ''M'', 131.04049), (CHR ''H'', 137.05891), (CHR ''F'', 147.06841),
         (CHR ''U'', 150.95364), (CHR ''R'', 156.10111), (CHR ''Y'', 163.06333),
         (CHR ''W'', 186.07931), (CHR ''O'', 237.14773)],
      std_ion_comp =
        [(''M'', 0), (''a'', - 46.00548), (''b'', - 18.01056), (''c'', - 0.98402),
         (''x'', 25.97927), (''y'', 0), (''z'', - 17.02655)],
      mass_H2O = 18.01056,
      mass_proton = 1.00728,
      mass_CO = 27.99491,
      mass_H = 1.00783\<rparr>"

definition alphabetical :: "char set \<Rightarrow> char list" where
  "alphabetical S = filter (\<lambda>c. c \<in> S) ''abcxyz''"

definition reverse_alphabetical :: "char set \<Rightarrow> char list" where
  "reverse_alphabetical S = filter (\<lambda>c. c \<in> S) ''zyxcba''"

section \<open>Properties of the annotations\<close>

subsection \<open>Decimal strings and the default adduct\<close>

lemma is_digit_digit_char: "d < 10 \<Longrightarrow> is_digit (digit_char d)"
  unfolding is_digit_def digit_char_def
  by (rule nth_mem) simp

lemma str_nat_digits: "str_nat n \<noteq> [] \<and> (\<forall>c \<in> set (str_nat n). is_digit c)"
proof (induction n rule: str_nat.induct)
  case (1 n)
  show ?case
  proof (cases "n < 10")
    case True
    then show ?thesis
      by (subst (1 2) str_nat.simps) (simp add: is_digit_digit_char)
  next
    case False
    with 1 show ?thesis
      by (subst (1 2) str_nat.simps) (simp add: is_digit_digit_char)
  qed
qed

lemma re_match_digits1:
  "ds \<noteq> [] \<Longrightarrow> \<forall>c \<in> set ds. is_digit c \<Longrightarrow> re_match p rest
     \<Longrightarrow> re_match (Digits1 # p) (ds @ rest)"
proof (induction ds)
  case Nil
  then show ?case by simp
next
  case (Cons d ds)
  show ?case
  proof (cases "ds = []")
    case True
    with Cons.prems show ?thesis by simp
  next
    case False
    with Cons show ?thesis by simp
  qed
qed

lemma re_match_default_adduct:
  assumes "ds \<noteq> []" and "\<forall>c \<in> set ds. is_digit c"
  shows "re_match default_adduct_re (''[M+'' @ ds @ ''H]'' @ rest)"
proof -
  have "re_match (map Lit ''H]'') (''H]'' @ rest)" by simp
  from re_match_digits1 [OF assms this] show ?thesis
    by (simp add: default_adduct_re_def)
qed

lemma default_adduct_matches:
  "0 < c \<Longrightarrow> re_match default_adduct_re (''[M+'' @ str_opt_int (Some c) @ ''H]'')"
  using re_match_default_adduct [of "str_nat (nat c)" "[]"] str_nat_digits [of "nat c"]
  by (simp add: str_opt_int_def str_int_def)

subsection \<open>What a successful construction stores\<close>

lemma charge_setter_Inr:
  "charge_setter it c = Inr c' \<Longrightarrow> c' = c \<and> (it \<noteq> ''?'' \<longrightarrow> (\<exists>k. c = Some k \<and> 0 < k))"
  unfolding charge_setter_def
  by (cases c) (simp_all split: if_splits)

lemma mz_delta_setter_Inr:
  "mz_delta_setter md = Inr md' \<Longrightarrow>
     md' = md \<and> (\<forall>d u. md = Some (d, u) \<longrightarrow> u = ''Da'' \<or> u = ''ppm'')"
  unfolding mz_delta_setter_def
  by (cases md) (auto split: if_splits)

lemma init_Inr_setters:
  assumes "FragmentAnnotation_init it nl isot c ad an md = Inr f"
  shows "\<exists>c0 cs c' md'. it = c0 # cs \<and> c0 \<notin> set ''GLXS'' \<and> c0 \<in> set ''?abcxyzIm_prf'' \<and>
           \<not> (it = ''?'' \<and> (nl \<noteq> None \<or> isot \<noteq> 0 \<or> c \<noteq> None \<or> ad \<noteq> None
                               \<or> an \<noteq> None \<or> md \<noteq> None)) \<and>
           charge_setter it c = Inr c' \<and> mz_delta_setter md = Inr md' \<and>
           f = \<lparr>ion_type = it, neutral_loss = nl, isotope = isot, charge = c',
                adduct = (case ad of None \<Rightarrow> ''[M+'' @ str_opt_int c' @ ''H]'' | Some a \<Rightarrow> a),
                analyte_number = an, mz_delta = md'\<rparr>"
proof (cases it)
  case Nil
  with assms show ?thesis by (simp add: FragmentAnnotation_init_def)
next
  case (Cons c0 cs)
  with assms show ?thesis
    unfolding FragmentAnnotation_init_def
    by (simp split: if_splits sum.splits del: list.set set_simps)
qed

lemma init_Inr_intro:
  assumes "it = c0 # cs" and "c0 \<notin> set ''GLXS''" and "c0 \<in> set ''?abcxyzIm_prf''"
    and "it \<noteq> ''?''"
    and "charge_setter it c = Inr c'" and "mz_delta_setter md = Inr md'"
  shows "FragmentAnnotation_init it nl isot c ad an md =
           Inr \<lparr>ion_type = it, neutral_loss = nl, isotope = isot, charge = c',
                adduct = (case ad of None \<Rightarrow> ''[M+'' @ str_opt_int c' @ ''H]'' | Some a \<Rightarrow> a),
                analyte_number = an, mz_delta = md'\<rparr>"
  using assms unfolding FragmentAnnotation_init_def
  by (auto simp del: list.set set_simps)

lemma init_Inr_fields:
  assumes "FragmentAnnotation_init it nl isot c ad an md = Inr f"
  shows "f = \<lparr>ion_type = it, neutral_loss = nl, isotope = isot, charge = c,
              adduct = (case ad of None \<Rightarrow> ''[M+'' @ str_opt_int c @ ''H]'' | Some a \<Rightarrow> a),
              analyte_number = an, mz_delta = md\<rparr>"
    and "it \<noteq> ''?'' \<Longrightarrow> \<exists>k. c = Some k \<and> 0 < k"
    and "\<And>d u. md = Some (d, u) \<Longrightarrow> u = ''Da'' \<or> u = ''ppm''"
proof -
  from init_Inr_setters [OF assms] obtain c' md' where
    c: "charge_setter it c = Inr c'" and m: "mz_delta_setter md = Inr md'" and
    f: "f = \<lparr>ion_type = it, neutral_loss = nl, isotope = isot, charge = c',
              adduct = (case ad of None \<Rightarrow> ''[M+'' @ str_opt_int c' @ ''H]'' | Some a \<Rightarrow> a),
              analyte_number = an, mz_delta = md'\<rparr>"
    by blast
  from charge_setter_Inr [OF c] mz_delta_setter_Inr [OF m] f
  show "f = \<lparr>ion_type = it, neutral_loss = nl, isotope = isot, charge = c,
              adduct = (case ad of None \<Rightarrow> ''[M+'' @ str_opt_int c @ ''H]'' | Some a \<Rightarrow> a),
              analyte_number = an, mz_delta = md\<rparr>"
    by (cases ad) simp_all
  from charge_setter_Inr [OF c] show "it \<noteq> ''?'' \<Longrightarrow> \<exists>k. c = Some k \<and> 0 < k"
    by simp
  from mz_delta_setter_Inr [OF m] show "\<And>d u. md = Some (d, u) \<Longrightarrow> u = ''Da'' \<or> u = ''ppm''"
    by blast
qed

lemma init_adduct_irrelevant:
  assumes "it \<noteq> ''?''" and "FragmentAnnotation_init it nl isot c ad an md = Inr f"
  shows "\<exists>g. FragmentAnnotation_init it nl isot c ad' an md = Inr g"
proof -
  from init_Inr_setters [OF assms(2)] obtain c0 cs c' md' where
    "it = c0 # cs" "c0 \<notin> set ''GLXS''" "c0 \<in> set ''?abcxyzIm_prf''"
    "charge_setter it c = Inr c'" "mz_delta_setter md = Inr md'"
    by blast
  from init_Inr_intro [OF this(1-3) assms(1) this(4,5)] show ?thesis
    by blast
qed

subsection \<open>The canonical string of a constructed annotation\<close>

lemma str_of_init:
  assumes "FragmentAnnotation_init it nl isot c ad an md = Inr f"
  shows "FragmentAnnotation_str str_float f =
     (if it = ''?'' then ''?''
      else (case an of None \<Rightarrow> [] | Some n \<Rightarrow> str_int n @ ''@'')
         @ it
         @ (case nl of None \<Rightarrow> [] | Some l \<Rightarrow> l)
         @ (if isot = 1 then ''+i'' else if isot = - 1 then ''-i''
            else if isot = 0 then [] else str_int_signed isot @ ''i'')
         @ (case c of None \<Rightarrow> [] | Some k \<Rightarrow> if k > 1 then ''^'' @ str_int k else [])
         @ (case ad of None \<Rightarrow> []
            | Some a \<Rightarrow> if re_match default_adduct_re a then [] else a)
         @ (case md of None \<Rightarrow> []
            | Some (d, u) \<Rightarrow> ''/'' @ str_float d @ (if u = ''Da'' then [] else ''ppm'')))"
proof (cases "it = ''?''")
  case True
  with init_Inr_fields(1) [OF assms] show ?thesis
    by (simp add: FragmentAnnotation_str_def)
next
  case False
  note f = init_Inr_fields(1) [OF assms]
  from init_Inr_fields(2) [OF assms False] obtain k where k: "c = Some k" "0 < k"
    by blast
  note unit = init_Inr_fields(3) [OF assms]
  have t_an: "concat (case analyte_number f of None \<Rightarrow> [] | Some n \<Rightarrow> [str_int n @ ''@''])
      = (case an of None \<Rightarrow> [] | Some n \<Rightarrow> str_int n @ ''@'')"
    by (cases an) (simp_all add: f)
  have t_nl: "concat (case neutral_loss f of None \<Rightarrow> [] | Some l \<Rightarrow> [l])
      = (case nl of None \<Rightarrow> [] | Some l \<Rightarrow> l)"
    by (cases nl) (simp_all add: f)
  have t_iso: "concat (if \<bar>isotope f\<bar> = 1 then [if isotope f > 0 then ''+i'' else ''-i'']
            else if isotope f \<noteq> 0 then [str_int_signed (isotope f) @ ''i''] else [])
      = (if isot = 1 then ''+i'' else if isot = - 1 then ''-i''
            else if isot = 0 then [] else str_int_signed isot @ ''i'')"
    by (auto simp: f)
  have t_c: "concat (case charge f of None \<Rightarrow> []
                     | Some c \<Rightarrow> if c > 1 then [''^'' @ str_int c] else [])
      = (case c of None \<Rightarrow> [] | Some k \<Rightarrow> if k > 1 then ''^'' @ str_int k else [])"
    by (simp add: f k)
  have t_ad: "concat (if \<not> re_match default_adduct_re (adduct f) then [adduct f] else [])
      = (case ad of None \<Rightarrow> [] | Some a \<Rightarrow> if re_match default_adduct_re a then [] else a)"
    using default_adduct_matches [OF k(2)] by (cases ad) (simp_all add: f k)
  have t_md: "concat (case mz_delta f of None \<Rightarrow> []
            | Some (d, u) \<Rightarrow> [''/'' @ str_float d @ (if u = ''ppm'' then ''ppm'' else [])])
      = (case md of None \<Rightarrow> []
            | Some (d, u) \<Rightarrow> ''/'' @ str_float d @ (if u = ''Da'' then [] else ''ppm''))"
  proof (cases md)
    case None
    then show ?thesis by (simp add: f)
  next
    case (Some du)
    obtain d u where du: "du = (d, u)" by (cases du)
    from unit [of d u] Some du have "u = ''Da'' \<or> u = ''ppm''" by simp
    then show ?thesis by (auto simp: f Some du)
  qed
  have it: "ion_type f = it" by (simp add: f)
  show ?thesis
    unfolding FragmentAnnotation_str_def concat_append t_an t_nl t_iso t_c t_ad t_md it
    using False by simp
qed

text \<open>
  C5: construction fails exactly when the first character of the ion type is an advanced
  prefix, or is not one of the supported characters (an ion type with no first character
  at all, the empty string, is among these: the source raises on reading it), or the ion
  type is \<open>?\<close> and a further field is given, or the ion type is not \<open>?\<close> and the
  charge is missing or not strictly positive, or the unit of the m/z delta is neither
  \<open>Da\<close> nor \<open>ppm\<close>.  The constructor returns the error itself: nothing is deferred.
\<close>

theorem init_fails_iff:
  "(\<exists>e. FragmentAnnotation_init it nl isot c ad an md = Inl e) \<longleftrightarrow>
     ((case it of [] \<Rightarrow> False | c0 # _ \<Rightarrow> c0 \<in> set ''GLXS'')
      \<or> (case it of [] \<Rightarrow> True | c0 # _ \<Rightarrow> c0 \<notin> set ''?abcxyzIm_prf'')
      \<or> (it = ''?'' \<and> (nl \<noteq> None \<or> isot \<noteq> 0 \<or> c \<noteq> None \<or> ad \<noteq> None \<or> an \<noteq> None
                         \<or> md \<noteq> None))
      \<or> (it \<noteq> ''?'' \<and> (case c of None \<Rightarrow> True | Some n \<Rightarrow> n \<le> 0))
      \<or> (case md of None \<Rightarrow> False | Some (d, u) \<Rightarrow> u \<noteq> ''Da'' \<and> u \<noteq> ''ppm''))"
  by (cases it; cases c; cases md)
     (auto simp: FragmentAnnotation_init_def charge_setter_def mz_delta_setter_def
           split: sum.splits if_splits)

theorem init_fails_iff_witness:
  "(\<exists>e. FragmentAnnotation_init ''?'' None 0 (Some 1) None None None = Inl e)
   \<and> \<not> (\<exists>e. FragmentAnnotation_init ''?'' None 0 None None None None = Inl e)
   \<and> (\<exists>e. FragmentAnnotation_init ''b'' None 0 (Some 0) None None None = Inl e)
   \<and> (\<exists>e. FragmentAnnotation_init ''b'' None 0 None None None None = Inl e)"
  using init_fails_iff [of "''?''" None 0 "Some 1" None None None]
        init_fails_iff [of "''?''" None 0 None None None None]
        init_fails_iff [of "''b''" None 0 "Some 0" None None None]
        init_fails_iff [of "''b''" None 0 None None None None]
  by simp

text \<open>
  C6: the canonical string of a validly constructed annotation is the concatenation, in
  this order, of the analyte prefix, the ion type, the neutral loss, the isotope token,
  the charge token (only above 1), the adduct (only when it does not match the default
  pattern) and the m/z delta with its unit suffix; the unknown ion is rendered as
  \<open>?\<close>.
\<close>

theorem str_canonical:
  assumes "FragmentAnnotation_init it nl isot c ad an md = Inr f"
  shows "FragmentAnnotation_str str_float f =
     (if it = ''?'' then ''?''
      else (case an of None \<Rightarrow> [] | Some n \<Rightarrow> str_int n @ ''@'')
         @ it
         @ (case nl of None \<Rightarrow> [] | Some l \<Rightarrow> l)
         @ (if isot = 1 then ''+i'' else if isot = - 1 then ''-i''
            else if isot = 0 then [] else str_int_signed isot @ ''i'')
         @ (case c of None \<Rightarrow> [] | Some k \<Rightarrow> if k > 1 then ''^'' @ str_int k else [])
         @ (case ad of None \<Rightarrow> []
            | Some a \<Rightarrow> if re_match default_adduct_re a then [] else a)
         @ (case md of None \<Rightarrow> []
            | Some (d, u) \<Rightarrow> ''/'' @ str_float d @ (if u = ''Da'' then [] else ''ppm'')))"
  using assms by (rule str_of_init)

theorem str_canonical_witness:
  "FragmentAnnotation_init ''y4'' (Some ''-H2O'') 2 (Some 2) (Some ''[M+H+Na]'') (Some 3)
      (Some (0, ''ppm'')) =
     Inr \<lparr>ion_type = ''y4'', neutral_loss = Some ''-H2O'', isotope = 2, charge = Some 2,
          adduct = ''[M+H+Na]'', analyte_number = Some 3, mz_delta = Some (0, ''ppm'')\<rparr>
   \<and> FragmentAnnotation_str (\<lambda>d. ''0.0'')
        \<lparr>ion_type = ''y4'', neutral_loss = Some ''-H2O'', isotope = 2, charge = Some 2,
         adduct = ''[M+H+Na]'', analyte_number = Some 3, mz_delta = Some (0, ''ppm'')\<rparr>
      = ''3@y4-H2O+2i^2[M+H+Na]/0.0ppm''"
proof -
  have i: "FragmentAnnotation_init ''y4'' (Some ''-H2O'') 2 (Some 2) (Some ''[M+H+Na]'') (Some 3)
      (Some (0, ''ppm'')) =
     Inr \<lparr>ion_type = ''y4'', neutral_loss = Some ''-H2O'', isotope = 2, charge = Some 2,
          adduct = ''[M+H+Na]'', analyte_number = Some 3, mz_delta = Some (0, ''ppm'')\<rparr>"
    by (simp add: FragmentAnnotation_init_def charge_setter_def mz_delta_setter_def)
  have m: "\<not> re_match default_adduct_re ''[M+H+Na]''"
    by (simp add: default_adduct_re_def is_digit_def)
  have s: "str_int 3 = ''3'' \<and> str_int 2 = ''2'' \<and> str_int_signed 2 = ''+2''"
    by (simp add: str_int_def str_int_signed_def str_nat.simps digit_char_def)
  from str_canonical [OF i, of "\<lambda>d. ''0.0''"] i m s show ?thesis by simp
qed

text \<open>
  C10: the adduct is left out of the canonical string as soon as the stored adduct begins
  with \<open>[M+\<close>, one or more digits and \<open>H]\<close>, whatever follows: an annotation constructed
  with such an adduct keeps it in its field and yet has the string of, and so is equal
  to, the annotation constructed from the same arguments with the default adduct.
\<close>

theorem adduct_prefix_suppressed:
  assumes "ds \<noteq> []" and "\<forall>ch \<in> set ds. is_digit ch"
    and "FragmentAnnotation_init it nl isot c (Some (''[M+'' @ ds @ ''H]'' @ extra)) an md = Inr f"
  shows "\<exists>g. FragmentAnnotation_init it nl isot c None an md = Inr g
           \<and> adduct f = ''[M+'' @ ds @ ''H]'' @ extra
           \<and> adduct g = ''[M+'' @ str_opt_int c @ ''H]''
           \<and> FragmentAnnotation_str str_float f = FragmentAnnotation_str str_float g
           \<and> FragmentAnnotation_eq str_float f g"
proof -
  let ?a = "''[M+'' @ ds @ ''H]'' @ extra"
  note f = init_Inr_fields(1) [OF assms(3)]
  from assms(3) have it: "it \<noteq> ''?''"
    unfolding FragmentAnnotation_init_def by (auto split: list.splits if_splits)
  from init_adduct_irrelevant [OF it assms(3), of None]
  obtain g where g: "FragmentAnnotation_init it nl isot c None an md = Inr g"
    by blast
  have m: "re_match default_adduct_re ?a"
    using assms(1,2) by (rule re_match_default_adduct)
  have "FragmentAnnotation_str str_float f = FragmentAnnotation_str str_float g"
    unfolding str_of_init [OF assms(3)] str_of_init [OF g] using m by simp
  with g f init_Inr_fields(1) [OF g] show ?thesis
    by (simp add: FragmentAnnotation_eq_def)
qed

theorem adduct_prefix_suppressed_witness:
  "FragmentAnnotation_init ''y3'' None 0 (Some 2) (Some ''[M+2H]extra'') None None =
     Inr \<lparr>ion_type = ''y3'', neutral_loss = None, isotope = 0, charge = Some 2,
          adduct = ''[M+2H]extra'', analyte_number = None, mz_delta = None\<rparr>
   \<and> FragmentAnnotation_init ''y3'' None 0 (Some 2) None None None =
     Inr \<lparr>ion_type = ''y3'', neutral_loss = None, isotope = 0, charge = Some 2,
          adduct = ''[M+2H]'', analyte_number = None, mz_delta = None\<rparr>
   \<and> FragmentAnnotation_eq (\<lambda>d. ''0.0'')
        \<lparr>ion_type = ''y3'', neutral_loss = None, isotope = 0, charge = Some 2,
         adduct = ''[M+2H]extra'', analyte_number = None, mz_delta = None\<rparr>
        \<lparr>ion_type = ''y3'', neutral_loss = None, isotope = 0, charge = Some 2,
         adduct = ''[M+2H]'', analyte_number = None, mz_delta = None\<rparr>"
proof -
  have i: "FragmentAnnotation_init ''y3'' None 0 (Some 2) (Some (''[M+'' @ ''2'' @ ''H]'' @ ''extra''))
             None None =
     Inr \<lparr>ion_type = ''y3'', neutral_loss = None, isotope = 0, charge = Some 2,
          adduct = ''[M+2H]extra'', analyte_number = None, mz_delta = None\<rparr>"
    by (simp add: FragmentAnnotation_init_def charge_setter_def mz_delta_setter_def)
  have j: "FragmentAnnotation_init ''y3'' None 0 (Some 2) None None None =
     Inr \<lparr>ion_type = ''y3'', neutral_loss = None, isotope = 0, charge = Some 2,
          adduct = ''[M+2H]'', analyte_number = None, mz_delta = None\<rparr>"
    by (simp add: FragmentAnnotation_init_def charge_setter_def mz_delta_setter_def
          str_opt_int_def str_int_def str_nat.simps digit_char_def)
  have d: "''2'' \<noteq> [] \<and> (\<forall>ch \<in> set ''2''. is_digit ch)"
    by (simp add: is_digit_def)
  from adduct_prefix_suppressed [OF conjunct1 [OF d] conjunct2 [OF d] i, of "\<lambda>d. ''0.0''"] i j
  show ?thesis
    by (simp add: str_opt_int_def str_int_def str_nat.simps digit_char_def)
qed

section \<open>Properties of the generator\<close>

subsection \<open>Computations that may raise\<close>

lemma bind_err_Inr [simp]: "bind_err (Inr x) f = f x"
  by (simp add: bind_err_def)

lemma bind_err_Inl [simp]: "bind_err (Inl e) f = Inl e"
  by (simp add: bind_err_def)

lemma bind_err_eq_Inr: "bind_err m f = Inr y \<longleftrightarrow> (\<exists>x. m = Inr x \<and> f x = Inr y)"
  by (cases m) simp_all

lemma map_err_eq_Inr: "map_err f xs = Inr ys \<longleftrightarrow> map f xs = map Inr ys"
proof (induction xs arbitrary: ys)
  case Nil
  then show ?case by auto
next
  case (Cons x xs)
  show ?case
  proof (cases "f x")
    case (Inl e)
    then show ?thesis by (cases ys) auto
  next
    case (Inr y)
    show ?thesis
    proof (cases "map_err f xs")
      case (Inl e)
      with Cons.IH have "\<And>zs. map f xs \<noteq> map Inr zs" by simp
      with Inl Inr show ?thesis by (cases ys) auto
    next
      case r: (Inr zs)
      with Cons.IH [of zs] have "map f xs = map Inr zs" by simp
      with r Inr show ?thesis by (cases ys) (auto simp: inj_map_eq_map)
    qed
  qed
qed

lemma map_err_all_Inr:
  assumes "\<And>x. x \<in> set xs \<Longrightarrow> f x = Inr (g x)"
  shows "map_err f xs = Inr (map g xs)"
  using assms by (simp add: map_err_eq_Inr)

lemma map_err_Inr_set:
  assumes "map_err f xs = Inr ys"
  shows "y \<in> set ys \<longleftrightarrow> (\<exists>x \<in> set xs. f x = Inr y)"
proof -
  from assms have "map f xs = map Inr ys" by (simp add: map_err_eq_Inr)
  then have "f ` set xs = Inr ` set ys" by (metis set_map)
  then show ?thesis by force
qed

lemma fold_err_invariant:
  assumes "fold_err f xs s = Inr s'" and "I s"
    and "\<And>x t t'. x \<in> set xs \<Longrightarrow> I t \<Longrightarrow> f x t = Inr t' \<Longrightarrow> I t'"
  shows "I s'"
  using assms
proof (induction xs arbitrary: s)
  case Nil
  then show ?case by simp
next
  case (Cons x xs)
  from Cons.prems(1) obtain t where t: "f x s = Inr t" "fold_err f xs t = Inr s'"
    by (auto simp: bind_err_eq_Inr)
  from Cons.prems(3) [of x s t] Cons.prems(2) t(1) have "I t" by simp
  show ?case
  proof (rule Cons.IH [OF t(2) \<open>I t\<close>])
    fix y u u'
    assume "y \<in> set xs" "I u" "f y u = Inr u'"
    with Cons.prems(3) [of y u u'] show "I u'" by simp
  qed
qed

lemma fold_invariant:
  assumes "I s" and "\<And>x t. x \<in> set xs \<Longrightarrow> I t \<Longrightarrow> I (f x t)"
  shows "I (fold f xs s)"
  using assms by (induction xs arbitrary: s) simp_all

subsection \<open>The annotations that the generator constructs\<close>

lemma generated_annotation:
  assumes "FragmentAnnotation_init t None 0 (Some c) None None None = Inr F"
  shows "t \<noteq> ''?''" and "0 < c"
    and "F = \<lparr>ion_type = t, neutral_loss = None, isotope = 0, charge = Some c,
               adduct = ''[M+'' @ str_int c @ ''H]'', analyte_number = None,
               mz_delta = None\<rparr>"
proof -
  from init_Inr_setters [OF assms] show t: "t \<noteq> ''?''" by auto
  from init_Inr_fields(2) [OF assms t] show "0 < c" by simp
  from init_Inr_fields(1) [OF assms] show "F = \<lparr>ion_type = t, neutral_loss = None, isotope = 0, charge = Some c,
               adduct = ''[M+'' @ str_int c @ ''H]'', analyte_number = None,
               mz_delta = None\<rparr>"
    by (simp add: str_opt_int_def)
qed

lemma loss_of_generated:
  assumes "FragmentAnnotation_init t None 0 (Some c) None None None = Inr F"
  shows "loss_fragment ((name, D), (F, M)) =
           Inr (F\<lparr>neutral_loss := Some ((if D < 0 then ''-'' else ''+'') @ name)\<rparr>,
                M + D / real_of_int c)"
proof -
  note F = generated_annotation [OF assms]
  from init_Inr_setters [OF assms] obtain c0 cs c' md' where
    *: "t = c0 # cs" "c0 \<notin> set ''GLXS''" "c0 \<in> set ''?abcxyzIm_prf''"
       "charge_setter t (Some c) = Inr c'" "mz_delta_setter None = Inr md'"
    by blast
  from charge_setter_Inr [OF *(4)] mz_delta_setter_Inr [OF *(5)]
  have **: "c' = Some c" "md' = None" by simp_all
  have "FragmentAnnotation_init (ion_type F)
          (Some ((if D < 0 then ''-'' else ''+'') @ name)) 0 (charge F) None None None
        = Inr (F\<lparr>neutral_loss := Some ((if D < 0 then ''-'' else ''+'') @ name)\<rparr>)"
    using init_Inr_intro [OF *(1-3) F(1), of "Some c" c' None md'
            "Some ((if D < 0 then ''-'' else ''+'') @ name)" 0 None None] *(4,5) ** F(3)
    by (simp add: str_opt_int_def)
  with F(2,3) show ?thesis
    by (simp add: loss_fragment_def)
qed

lemma charged_fragment_Inr:
  assumes "charged_fragment P ((s, it, fi, mm), c) = Inr (F, M)"
  shows "FragmentAnnotation_init (annot_type_of it fi) None 0 (Some c) None None None = Inr F"
    and "\<exists>m. fast_mass P s it c (aa_mass P) = Inr m \<and> M = m + mm / real_of_int c"
  using assms by (auto simp: charged_fragment_def bind_err_eq_Inr)

lemma immonium_fragment_Inr:
  assumes "immonium_fragment P (aa, m) = Inr (F, M)"
  shows "FragmentAnnotation_init (''I'' @ [aa]) None 0 (Some 1) None None None = Inr F"
    and "M = m - (mass_CO P - mass_H P)"
  using assms by (auto simp: immonium_fragment_def bind_err_eq_Inr)

lemma immonium_fragment_eq:
  "immonium_fragment P (aa, m) =
     Inr (\<lparr>ion_type = ''I'' @ [aa], neutral_loss = None, isotope = 0, charge = Some 1,
           adduct = ''[M+1H]'', analyte_number = None, mz_delta = None\<rparr>,
          m - (mass_CO P - mass_H P))"
  by (simp add: immonium_fragment_def FragmentAnnotation_init_def charge_setter_def
        mz_delta_setter_def str_opt_int_def str_int_def str_nat.simps digit_char_def)

lemma fragments_masses_generated:
  assumes "fragments_masses_of P set_iter pf ion_types max_charge = Inr fm"
    and "(F, M) \<in> set fm"
  shows "\<exists>t c. FragmentAnnotation_init t None 0 (Some c) None None None = Inr F"
proof -
  from assms(1) obtain bf cf where
    cf: "map_err (charged_fragment P) (List.product bf [1..max_charge]) = Inr cf" and
    fm: "fm = cf \<or> (\<exists>imm. map_err (immonium_fragment P)
                 (filter (\<lambda>(aa, m). aa \<noteq> CHR ''X'') (aa_mass P)) = Inr imm \<and> fm = cf @ imm)"
    by (auto simp: fragments_masses_of_def bind_err_eq_Inr split: if_splits)
  from fm assms(2) consider "(F, M) \<in> set cf"
    | imm where "map_err (immonium_fragment P)
                 (filter (\<lambda>(aa, m). aa \<noteq> CHR ''X'') (aa_mass P)) = Inr imm" "(F, M) \<in> set imm"
    by auto
  then show ?thesis
  proof cases
    case 1
    with map_err_Inr_set [OF cf, of "(F, M)"] obtain s it fi mm c where
      "charged_fragment P ((s, it, fi, mm), c) = Inr (F, M)" by auto
    from charged_fragment_Inr(1) [OF this] show ?thesis by blast
  next
    case 2
    with map_err_Inr_set [OF 2(1), of "(F, M)"] obtain aa m where
      "immonium_fragment P (aa, m) = Inr (F, M)" by auto
    with immonium_fragment_Inr(1) show ?thesis by blast
  qed
qed

lemmas gen_eval =
  get_theoretical_fragments_def unsorted_fragments_def fragments_masses_of_def
  base_fragments_of_def n_term_fragments_def n_term_step_def c_term_fragments_def
  c_term_step_def internal_fragments_def internal_start_step_def internal_stop_step_def
  include_internal_def precursor_fragment_def charged_fragment_def immonium_fragment_def
  neutral_loss_fragments_def named_losses_def loss_fragment_def annot_type_of_def
  fast_mass_def aa_mass_def bind_err_def
  FragmentAnnotation_init_def charge_setter_def mz_delta_setter_def
  str_opt_int_def str_int_def str_nat.simps digit_char_def
  pyteomics_std_def alphabetical_def reverse_alphabetical_def
  skip_unlocalized.simps include_prefix.simps include_suffix.simps skip_prefix.simps
  upt_rec upto.simps

subsection \<open>Ambiguous residues\<close>

lemma get_theoretical_fragments_Inr:
  assumes "get_theoretical_fragments P set_iter pf ion_types max_charge neutral_losses = Inr out"
  shows "CHR ''B'' \<notin> set (sequence pf)" and "CHR ''Z'' \<notin> set (sequence pf)"
    and "\<exists>fm losses.
           fragments_masses_of P set_iter pf ion_types max_charge = Inr fm \<and>
           neutral_loss_fragments
             (case neutral_losses of None \<Rightarrow> [(None, 0)] | Some nls \<Rightarrow> nls) fm = Inr losses \<and>
           unsorted_fragments P set_iter pf ion_types max_charge neutral_losses
             = Inr (fm @ losses) \<and>
           out = sort_key snd (fm @ losses)"
proof -
  from assms obtain un where
    un: "unsorted_fragments P set_iter pf ion_types max_charge neutral_losses = Inr un"
    and out: "out = sort_key snd un"
    by (auto simp: get_theoretical_fragments_def bind_err_eq_Inr)
  from un show b: "CHR ''B'' \<notin> set (sequence pf)"
    by (auto simp: unsorted_fragments_def split: if_splits)
  from un show z: "CHR ''Z'' \<notin> set (sequence pf)"
    by (auto simp: unsorted_fragments_def split: if_splits)
  from un b z out show "\<exists>fm losses.
           fragments_masses_of P set_iter pf ion_types max_charge = Inr fm \<and>
           neutral_loss_fragments
             (case neutral_losses of None \<Rightarrow> [(None, 0)] | Some nls \<Rightarrow> nls) fm = Inr losses \<and>
           unsorted_fragments P set_iter pf ion_types max_charge neutral_losses
             = Inr (fm @ losses) \<and>
           out = sort_key snd (fm @ losses)"
    by (auto simp: unsorted_fragments_def bind_err_eq_Inr)
qed

lemma fragments_masses_charged:
  assumes "fragments_masses_of P set_iter pf ion_types max_charge = Inr fm"
  shows "\<exists>bf cf. base_fragments_of set_iter pf ion_types = Inr bf \<and>
           map_err (charged_fragment P) (List.product bf [1..max_charge]) = Inr cf \<and>
           (if CHR ''I'' \<in> set ion_types
            then \<exists>imm. map_err (immonium_fragment P)
                          (filter (\<lambda>(aa, m). aa \<noteq> CHR ''X'') (aa_mass P)) = Inr imm \<and>
                        fm = cf @ imm
            else fm = cf)"
  using assms
  by (auto simp: fragments_masses_of_def bind_err_eq_Inr split: if_splits)

text \<open>
  C7: a sequence that contains \<open>B\<close> or \<open>Z\<close> makes the generator raise, whatever the other
  arguments are, and the generator returns either an error or the whole list: a returned
  list holds the fragment of every base fragment at every charge from 1 to
  \<open>max_charge\<close>.
\<close>

theorem ambiguous_residue_rejected:
  "(CHR ''B'' \<in> set (sequence pf) \<longrightarrow>
      get_theoretical_fragments P set_iter pf ion_types max_charge neutral_losses
        = Inl ValueError_ambiguous_B)
   \<and> (CHR ''B'' \<notin> set (sequence pf) \<and> CHR ''Z'' \<in> set (sequence pf) \<longrightarrow>
      get_theoretical_fragments P set_iter pf ion_types max_charge neutral_losses
        = Inl ValueError_ambiguous_Z)
   \<and> (\<forall>out. get_theoretical_fragments P set_iter pf ion_types max_charge neutral_losses
              = Inr out \<longrightarrow>
          CHR ''B'' \<notin> set (sequence pf) \<and> CHR ''Z'' \<notin> set (sequence pf) \<and>
          (\<exists>bf cf. base_fragments_of set_iter pf ion_types = Inr bf \<and>
             map_err (charged_fragment P) (List.product bf [1..max_charge]) = Inr cf \<and>
             set cf \<subseteq> set out))"
proof (intro conjI allI impI)
  assume "CHR ''B'' \<in> set (sequence pf)"
  then show "get_theoretical_fragments P set_iter pf ion_types max_charge neutral_losses
        = Inl ValueError_ambiguous_B"
    by (simp add: get_theoretical_fragments_def unsorted_fragments_def)
next
  assume "CHR ''B'' \<notin> set (sequence pf) \<and> CHR ''Z'' \<in> set (sequence pf)"
  then show "get_theoretical_fragments P set_iter pf ion_types max_charge neutral_losses
        = Inl ValueError_ambiguous_Z"
    by (simp add: get_theoretical_fragments_def unsorted_fragments_def)
next
  fix out
  assume out: "get_theoretical_fragments P set_iter pf ion_types max_charge neutral_losses
                 = Inr out"
  from get_theoretical_fragments_Inr(1) [OF out] show "CHR ''B'' \<notin> set (sequence pf)" .
  from get_theoretical_fragments_Inr(2) [OF out] show "CHR ''Z'' \<notin> set (sequence pf)" .
  from get_theoretical_fragments_Inr(3) [OF out] obtain fm losses where
    fm: "fragments_masses_of P set_iter pf ion_types max_charge = Inr fm"
    and o: "out = sort_key snd (fm @ losses)"
    by blast
  from fragments_masses_charged [OF fm] obtain bf cf where
    "base_fragments_of set_iter pf ion_types = Inr bf"
    "map_err (charged_fragment P) (List.product bf [1..max_charge]) = Inr cf"
    "set cf \<subseteq> set fm"
    by (auto split: if_splits)
  with o show "\<exists>bf cf. base_fragments_of set_iter pf ion_types = Inr bf \<and>
             map_err (charged_fragment P) (List.product bf [1..max_charge]) = Inr cf \<and>
             set cf \<subseteq> set out"
    by auto
qed

theorem ambiguous_residue_rejected_witness:
  "get_theoretical_fragments pyteomics_std alphabetical
      \<lparr>sequence = ''PEBTIDE'', modifications = None\<rparr> ''by'' 2 None
     = Inl ValueError_ambiguous_B
   \<and> get_theoretical_fragments pyteomics_std alphabetical
      \<lparr>sequence = ''PEPTIDZ'', modifications = None\<rparr> ''by'' 2 None
     = Inl ValueError_ambiguous_Z
   \<and> (\<exists>bf cf. base_fragments_of alphabetical
                 \<lparr>sequence = ''PEP'', modifications = None\<rparr> ''by'' = Inr bf \<and>
        map_err (charged_fragment pyteomics_std) (List.product bf [1..2]) = Inr cf \<and>
        set cf \<subseteq> set (projr (get_theoretical_fragments pyteomics_std alphabetical
                               \<lparr>sequence = ''PEP'', modifications = None\<rparr> ''by'' 2 None)))"
proof -
  have "\<exists>out. get_theoretical_fragments pyteomics_std alphabetical
           \<lparr>sequence = ''PEP'', modifications = None\<rparr> ''by'' 2 None = Inr out"
    by (simp add: gen_eval)
  then obtain out where out: "get_theoretical_fragments pyteomics_std alphabetical
           \<lparr>sequence = ''PEP'', modifications = None\<rparr> ''by'' 2 None = Inr out"
    by blast
  from ambiguous_residue_rejected
         [of "\<lparr>sequence = ''PEBTIDE'', modifications = None\<rparr>" pyteomics_std alphabetical
             "''by''" 2 None]
       ambiguous_residue_rejected
         [of "\<lparr>sequence = ''PEPTIDZ'', modifications = None\<rparr>" pyteomics_std alphabetical
             "''by''" 2 None]
       ambiguous_residue_rejected
         [of "\<lparr>sequence = ''PEP'', modifications = None\<rparr>" pyteomics_std alphabetical
             "''by''" 2 None]
       out
  show ?thesis by simp
qed

subsection \<open>The order of the result\<close>

lemma filter_eq_imp_mset_eq:
  assumes "\<And>k. filter (\<lambda>x. f x = k) ys = filter (\<lambda>x. f x = k) xs"
  shows "mset ys = mset xs"
proof (rule multiset_eqI)
  fix x
  have "count (mset ys) x = count (mset (filter (\<lambda>y. f y = f x) ys)) x"
    by simp
  also have "\<dots> = count (mset (filter (\<lambda>y. f y = f x) xs)) x"
    by (simp only: assms)
  also have "\<dots> = count (mset xs) x"
    by simp
  finally show "count (mset ys) x = count (mset xs) x" .
qed

lemma stable_sort_unique:
  assumes "sorted (map f ys)"
    and "\<And>k. filter (\<lambda>x. f x = k) ys = filter (\<lambda>x. f x = k) xs"
  shows "ys = sort_key f xs"
proof -
  have "sort_key f xs = ys"
  proof (rule properties_for_sort_key)
    show "mset ys = mset xs" using assms(2) by (rule filter_eq_imp_mset_eq)
    show "filter (\<lambda>x. f k = f x) ys = filter (\<lambda>x. f k = f x) xs" for k
    proof -
      have "(\<lambda>x. f k = f x) = (\<lambda>x. f x = f k)" by (rule ext) (rule eq_commute)
      then show ?thesis by (simp only: assms(2))
    qed
    show "sorted (map f ys)" by (rule assms(1))
  qed
  then show ?thesis by simp
qed

text \<open>
  C4, as amended: the returned list is the fragments in ascending (non-decreasing) order of
  mass, with the mass as the only key and the fragments of equal mass in the order in which
  they were generated; it is the only such list, so the result is determined by the
  generated fragments.
\<close>

theorem fragments_sorted_stable:
  assumes "get_theoretical_fragments P set_iter pf ion_types max_charge neutral_losses = Inr out"
  shows "\<exists>fm. unsorted_fragments P set_iter pf ion_types max_charge neutral_losses = Inr fm
           \<and> sorted (map snd out)
           \<and> mset out = mset fm
           \<and> (\<forall>k. filter (\<lambda>x. snd x = k) out = filter (\<lambda>x. snd x = k) fm)
           \<and> (\<forall>ys. sorted (map snd ys)
                    \<and> (\<forall>k. filter (\<lambda>x. snd x = k) ys = filter (\<lambda>x. snd x = k) fm)
                  \<longrightarrow> ys = out)"
proof -
  from assms obtain fm where
    fm: "unsorted_fragments P set_iter pf ion_types max_charge neutral_losses = Inr fm"
    and out: "out = sort_key snd fm"
    by (auto simp: get_theoretical_fragments_def bind_err_eq_Inr)
  have "sorted (map snd out)" by (simp add: out)
  moreover have "mset out = mset fm" by (simp add: out)
  moreover have "\<forall>k. filter (\<lambda>x. snd x = k) out = filter (\<lambda>x. snd x = k) fm"
    by (simp add: out sort_key_stable)
  moreover have "\<forall>ys. sorted (map snd ys)
                    \<and> (\<forall>k. filter (\<lambda>x. snd x = k) ys = filter (\<lambda>x. snd x = k) fm)
                  \<longrightarrow> ys = out"
    unfolding out using stable_sort_unique [of snd _ fm] by blast
  ultimately show ?thesis using fm by blast
qed

lemma internal_AAAAA:
  "get_theoretical_fragments pyteomics_std alphabetical
      \<lparr>sequence = ''AAAAA'', modifications = None\<rparr> ''m'' 1 None
     = Inr [(\<lparr>ion_type = ''m2:4'', neutral_loss = None, isotope = 0, charge = Some 1,
              adduct = ''[M+1H]'', analyte_number = None, mz_delta = None\<rparr>, 143.0815),
            (\<lparr>ion_type = ''m3:5'', neutral_loss = None, isotope = 0, charge = Some 1,
              adduct = ''[M+1H]'', analyte_number = None, mz_delta = None\<rparr>, 143.0815),
            (\<lparr>ion_type = ''m2:5'', neutral_loss = None, isotope = 0, charge = Some 1,
              adduct = ''[M+1H]'', analyte_number = None, mz_delta = None\<rparr>, 214.11861)]"
  by (simp add: gen_eval)

theorem fragments_sorted_stable_witness:
  "\<exists>fm. unsorted_fragments pyteomics_std alphabetical
           \<lparr>sequence = ''AAAAA'', modifications = None\<rparr> ''m'' 1 None = Inr fm
      \<and> sorted (map snd (projr (get_theoretical_fragments pyteomics_std alphabetical
                                  \<lparr>sequence = ''AAAAA'', modifications = None\<rparr> ''m'' 1 None)))
      \<and> filter (\<lambda>x. snd x = 143.0815)
           (projr (get_theoretical_fragments pyteomics_std alphabetical
                     \<lparr>sequence = ''AAAAA'', modifications = None\<rparr> ''m'' 1 None))
         = filter (\<lambda>x. snd x = 143.0815) fm"
  using fragments_sorted_stable [OF internal_AAAAA]
  unfolding internal_AAAAA sum.sel
  by blast

text \<open>
  The claim as stated asks for strictly ascending masses.  The internal fragments
  \<open>m2:4\<close> and \<open>m3:5\<close> of the peptide \<open>AAAAA\<close> are both the slice \<open>AA\<close>: they have the
  same mass and are adjacent in the result.
\<close>

theorem strictly_ascending_counterexample:
  "(case get_theoretical_fragments pyteomics_std alphabetical
           \<lparr>sequence = ''AAAAA'', modifications = None\<rparr> ''m'' 1 None of
      Inl e \<Rightarrow> False
    | Inr out \<Rightarrow> map (\<lambda>(F, M). (ion_type F, M)) out
                   = [(''m2:4'', 143.0815), (''m3:5'', 143.0815), (''m2:5'', 214.11861)]
                 \<and> \<not> sorted_wrt (<) (map snd out))"
  by (simp add: internal_AAAAA)

subsection \<open>Neutral losses\<close>

lemma named_losses_set:
  "(name, D) \<in> set (named_losses nls) \<longleftrightarrow> (Some name, D) \<in> set nls"
  by (induction nls) (auto simp: named_losses_def split: option.splits)

lemma neutral_loss_fragments_eq:
  assumes "fragments_masses_of P set_iter pf ion_types max_charge = Inr fm"
  shows "neutral_loss_fragments nls fm =
           Inr (map (\<lambda>((name, D), (F, M)).
                       (F\<lparr>neutral_loss := Some ((if D < 0 then ''-'' else ''+'') @ name)\<rparr>,
                        M + D / real_of_int (the (charge F))))
                  (List.product (named_losses nls) fm))"
proof -
  have *: "loss_fragment ((name, D), (F, M)) =
          Inr (F\<lparr>neutral_loss := Some ((if D < 0 then ''-'' else ''+'') @ name)\<rparr>,
                  M + D / real_of_int (the (charge F)))"
    if "(F, M) \<in> set fm" for name D F M
  proof -
    from fragments_masses_generated [OF assms that] obtain t c where
      F: "FragmentAnnotation_init t None 0 (Some c) None None None = Inr F"
      by blast
    from generated_annotation(3) [OF F] have "charge F = Some c" by simp
    with loss_of_generated [OF F, of name D M] show ?thesis by simp
  qed
  show ?thesis
    unfolding neutral_loss_fragments_def
    by (rule map_err_all_Inr) (auto simp: *)
qed

text \<open>
  C3: once the fragments of the requested ion types and charges are generated, the
  expansion with the neutral losses cannot fail.  The result keeps every generated
  fragment and holds, for every named loss \<open>(name, D)\<close> and every generated fragment
  \<open>(F, M)\<close>, the fragment with the ion type and the charge \<open>c\<close> of \<open>F\<close>, the neutral loss
  \<open>-name\<close> when \<open>D < 0\<close> and \<open>+name\<close> otherwise, and the mass \<open>M + D / c\<close>; it holds
  nothing else.
\<close>

theorem neutral_loss_expansion:
  assumes "CHR ''B'' \<notin> set (sequence pf)" and "CHR ''Z'' \<notin> set (sequence pf)"
    and "fragments_masses_of P set_iter pf ion_types max_charge = Inr fm"
  shows "\<exists>out. get_theoretical_fragments P set_iter pf ion_types max_charge (Some nls) = Inr out
           \<and> length out = length fm + length (named_losses nls) * length fm
           \<and> (\<forall>(F, M) \<in> set fm.
                (F, M) \<in> set out \<and> neutral_loss F = None \<and>
                (\<forall>(k, D) \<in> set nls. \<forall>name. k = Some name \<longrightarrow>
                   (\<exists>c F'. charge F = Some c \<and> 0 < c
                      \<and> ion_type F' = ion_type F \<and> charge F' = charge F
                      \<and> neutral_loss F' = Some ((if D < 0 then ''-'' else ''+'') @ name)
                      \<and> (F', M + D / real_of_int c) \<in> set out)))"
proof -
  let ?derive = "\<lambda>((name, D), (F, M)).
                   (F\<lparr>neutral_loss := Some ((if D < 0 then ''-'' else ''+'') @ name)\<rparr>,
                    M + D / real_of_int (the (charge F)))"
  define losses where "losses = map ?derive (List.product (named_losses nls) fm)"
  define out where "out = sort_key snd (fm @ losses)"
  have set_out: "set out = set fm \<union> set losses"
    by (simp add: out_def)
  have gen: "get_theoretical_fragments P set_iter pf ion_types max_charge (Some nls) = Inr out"
    using assms neutral_loss_fragments_eq [OF assms(3), of nls]
    by (simp add: get_theoretical_fragments_def unsorted_fragments_def out_def losses_def)
  have len: "length out = length fm + length (named_losses nls) * length fm"
    by (simp add: out_def losses_def)
  have each: "(F, M) \<in> set out \<and> neutral_loss F = None \<and>
                (\<forall>k D name. (k, D) \<in> set nls \<longrightarrow> k = Some name \<longrightarrow>
                   (\<exists>c F'. charge F = Some c \<and> 0 < c
                      \<and> ion_type F' = ion_type F \<and> charge F' = charge F
                      \<and> neutral_loss F' = Some ((if D < 0 then ''-'' else ''+'') @ name)
                      \<and> (F', M + D / real_of_int c) \<in> set out))"
    if FM: "(F, M) \<in> set fm" for F M
  proof (intro conjI allI impI)
    from FM show "(F, M) \<in> set out" by (simp add: set_out)
    from fragments_masses_generated [OF assms(3) FM] obtain t c where
      F: "FragmentAnnotation_init t None 0 (Some c) None None None = Inr F"
      by blast
    note g = generated_annotation [OF F]
    from g(3) have c: "charge F = Some c" and nl: "neutral_loss F = None" by simp_all
    show "neutral_loss F = None" by (rule nl)
    fix k D name
    assume kD: "(k, D) \<in> set nls" and k: "k = Some name"
    let ?F' = "F\<lparr>neutral_loss := Some ((if D < 0 then ''-'' else ''+'') @ name)\<rparr>"
    from kD k FM have "((name, D), (F, M)) \<in> set (List.product (named_losses nls) fm)"
      by (simp add: named_losses_set)
    then have "?derive ((name, D), (F, M))
                 \<in> ?derive ` set (List.product (named_losses nls) fm)"
      by (rule imageI)
    then have "(?F', M + D / real_of_int c) \<in> set losses"
      by (simp add: c losses_def)
    then have "(?F', M + D / real_of_int c) \<in> set out"
      by (simp add: set_out)
    with c g(2) have "charge F = Some c \<and> 0 < c
                      \<and> ion_type ?F' = ion_type F \<and> charge ?F' = charge F
                      \<and> neutral_loss ?F' = Some ((if D < 0 then ''-'' else ''+'') @ name)
                      \<and> (?F', M + D / real_of_int c) \<in> set out"
      by simp
    then show "\<exists>c F'. charge F = Some c \<and> 0 < c
                      \<and> ion_type F' = ion_type F \<and> charge F' = charge F
                      \<and> neutral_loss F' = Some ((if D < 0 then ''-'' else ''+'') @ name)
                      \<and> (F', M + D / real_of_int c) \<in> set out"
      by blast
  qed
  from gen len each show ?thesis by blast
qed

lemma fragments_masses_PEP:
  "fragments_masses_of pyteomics_std alphabetical
      \<lparr>sequence = ''PEP'', modifications = None\<rparr> ''b'' 2
     = Inr [(\<lparr>ion_type = ''b1'', neutral_loss = None, isotope = 0, charge = Some 1,
              adduct = ''[M+1H]'', analyte_number = None, mz_delta = None\<rparr>, 98.06004),
            (\<lparr>ion_type = ''b1'', neutral_loss = None, isotope = 0, charge = Some 2,
              adduct = ''[M+2H]'', analyte_number = None, mz_delta = None\<rparr>, 49.53366),
            (\<lparr>ion_type = ''b2'', neutral_loss = None, isotope = 0, charge = Some 1,
              adduct = ''[M+1H]'', analyte_number = None, mz_delta = None\<rparr>, 227.10263),
            (\<lparr>ion_type = ''b2'', neutral_loss = None, isotope = 0, charge = Some 2,
              adduct = ''[M+2H]'', analyte_number = None, mz_delta = None\<rparr>, 114.054955)]"
  by (simp add: gen_eval)

theorem neutral_loss_expansion_witness:
  "\<exists>out. get_theoretical_fragments pyteomics_std alphabetical
            \<lparr>sequence = ''PEP'', modifications = None\<rparr> ''b'' 2
            (Some [(None, 0), (Some ''H2O'', - 18.010565)]) = Inr out
      \<and> length out = 8
      \<and> (\<lparr>ion_type = ''b1'', neutral_loss = None, isotope = 0, charge = Some 2,
           adduct = ''[M+2H]'', analyte_number = None, mz_delta = None\<rparr>, 49.53366) \<in> set out
      \<and> (\<exists>F'. ion_type F' = ''b1'' \<and> charge F' = Some 2 \<and> neutral_loss F' = Some ''-H2O''
             \<and> (F', 49.53366 + - 18.010565 / 2) \<in> set out)"
proof -
  have B: "CHR ''B'' \<notin> set (sequence \<lparr>sequence = ''PEP'', modifications = None\<rparr>)"
    and Z: "CHR ''Z'' \<notin> set (sequence \<lparr>sequence = ''PEP'', modifications = None\<rparr>)"
    by simp_all
  let ?b1 = "(\<lparr>ion_type = ''b1'', neutral_loss = None, isotope = 0, charge = Some 2,
           adduct = ''[M+2H]'', analyte_number = None, mz_delta = None\<rparr>, 49.53366 :: real)"
  let ?nls = "[(None, 0), (Some ''H2O'', - 18.010565 :: real)]"
  from neutral_loss_expansion [OF B Z fragments_masses_PEP, of ?nls]
  show ?thesis
  proof (elim exE conjE)
    fix out
    assume out: "get_theoretical_fragments pyteomics_std alphabetical
            \<lparr>sequence = ''PEP'', modifications = None\<rparr> ''b'' 2 (Some ?nls) = Inr out"
    assume len: "length out = length [(\<lparr>ion_type = ''b1'', neutral_loss = None, isotope = 0,
                 charge = Some 1, adduct = ''[M+1H]'', analyte_number = None,
                 mz_delta = None\<rparr>, 98.06004 :: real), ?b1,
               (\<lparr>ion_type = ''b2'', neutral_loss = None, isotope = 0, charge = Some 1,
                 adduct = ''[M+1H]'', analyte_number = None, mz_delta = None\<rparr>, 227.10263),
               (\<lparr>ion_type = ''b2'', neutral_loss = None, isotope = 0, charge = Some 2,
                 adduct = ''[M+2H]'', analyte_number = None, mz_delta = None\<rparr>, 114.054955)]
            + length (named_losses ?nls)
              * length [(\<lparr>ion_type = ''b1'', neutral_loss = None, isotope = 0,
                 charge = Some 1, adduct = ''[M+1H]'', analyte_number = None,
                 mz_delta = None\<rparr>, 98.06004 :: real), ?b1,
               (\<lparr>ion_type = ''b2'', neutral_loss = None, isotope = 0, charge = Some 1,
                 adduct = ''[M+1H]'', analyte_number = None, mz_delta = None\<rparr>, 227.10263),
               (\<lparr>ion_type = ''b2'', neutral_loss = None, isotope = 0, charge = Some 2,
                 adduct = ''[M+2H]'', analyte_number = None, mz_delta = None\<rparr>, 114.054955)]"
    assume all: "\<forall>(F, M) \<in> set [(\<lparr>ion_type = ''b1'', neutral_loss = None, isotope = 0,
                 charge = Some 1, adduct = ''[M+1H]'', analyte_number = None,
                 mz_delta = None\<rparr>, 98.06004 :: real), ?b1,
               (\<lparr>ion_type = ''b2'', neutral_loss = None, isotope = 0, charge = Some 1,
                 adduct = ''[M+1H]'', analyte_number = None, mz_delta = None\<rparr>, 227.10263),
               (\<lparr>ion_type = ''b2'', neutral_loss = None, isotope = 0, charge = Some 2,
                 adduct = ''[M+2H]'', analyte_number = None, mz_delta = None\<rparr>, 114.054955)].
             (F, M) \<in> set out \<and> neutral_loss F = None \<and>
                (\<forall>(k, D) \<in> set ?nls. \<forall>name. k = Some name \<longrightarrow>
                   (\<exists>c F'. charge F = Some c \<and> 0 < c
                      \<and> ion_type F' = ion_type F \<and> charge F' = charge F
                      \<and> neutral_loss F' = Some ((if D < 0 then ''-'' else ''+'') @ name)
                      \<and> (F', M + D / real_of_int c) \<in> set out))"
    from len have l: "length out = 8" by (simp add: named_losses_def)
    from all have b1: "?b1 \<in> set out" by simp
    from all have "\<exists>c F'. Some (2::int) = Some c \<and> 0 < c \<and> ion_type F' = ''b1''
              \<and> charge F' = Some 2 \<and> neutral_loss F' = Some ''-H2O''
              \<and> (F', 49.53366 + - 18.010565 / real_of_int c) \<in> set out"
      by simp
    then have d: "\<exists>F'. ion_type F' = ''b1'' \<and> charge F' = Some 2
             \<and> neutral_loss F' = Some ''-H2O''
             \<and> (F', 49.53366 + - 18.010565 / 2) \<in> set out"
      by auto
    from out l b1 d show ?thesis by blast
  qed
qed

subsection \<open>The ion types of the base fragments\<close>

lemma n_term_step_fragments:
  "snd (snd (n_term_step pf it i st)) =
     snd (snd st) @ [(take i (sequence pf), [it], FInt (int i), fst (snd (n_term_step pf it i st)))]"
  by (cases st) (auto simp: n_term_step_def split: prod.splits option.splits)

lemma n_term_fragments_invariant:
  assumes "\<forall>b \<in> set (snd (snd st)). Q b"
    and "\<And>it i s mm. it \<in> set its \<Longrightarrow> Q (s, [it], FInt i, mm)"
  shows "\<forall>b \<in> set (snd (snd (n_term_fragments pf its st))). Q b"
  unfolding n_term_fragments_def
proof (rule fold_invariant [where I = "\<lambda>st. \<forall>b \<in> set (snd (snd st)). Q b"])
  show "\<forall>b \<in> set (snd (snd st)). Q b" by (rule assms(1))
next
  fix it and t :: "nat \<times> real \<times> base_fragment list"
  assume it: "it \<in> set its" and t: "\<forall>b \<in> set (snd (snd t)). Q b"
  show "\<forall>b \<in> set (snd (snd (fold (n_term_step pf it) [1..<length (sequence pf)] t))). Q b"
  proof (rule fold_invariant [where I = "\<lambda>st. \<forall>b \<in> set (snd (snd st)). Q b"])
    show "\<forall>b \<in> set (snd (snd t)). Q b" by (rule t)
  next
    fix i and u :: "nat \<times> real \<times> base_fragment list"
    assume "\<forall>b \<in> set (snd (snd u)). Q b"
    with assms(2) [OF it] show "\<forall>b \<in> set (snd (snd (n_term_step pf it i u))). Q b"
      by (subst n_term_step_fragments) auto
  qed
qed

lemma c_term_step_fragments:
  assumes "c_term_step pf it i st = Inr st'"
  shows "\<exists>mm. snd (snd st') =
           snd (snd st) @ [(drop i (sequence pf), [it],
                            FInt (int (length (sequence pf)) - int i), mm)]"
  using assms
  by (cases st) (auto simp: c_term_step_def bind_err_eq_Inr split: option.splits)

lemma c_term_fragments_invariant:
  assumes "c_term_fragments pf its st = Inr st'"
    and "\<forall>b \<in> set (snd (snd st)). Q b"
    and "\<And>it i s mm. it \<in> set its \<Longrightarrow> Q (s, [it], FInt i, mm)"
  shows "\<forall>b \<in> set (snd (snd st')). Q b"
proof (rule fold_err_invariant [where I = "\<lambda>st. \<forall>b \<in> set (snd (snd st)). Q b",
         OF assms(1) [unfolded c_term_fragments_def] assms(2)])
  fix it t t'
  assume it: "it \<in> set its" and t: "\<forall>b \<in> set (snd (snd t)). Q b"
    and step: "fold_err (c_term_step pf it) (rev [1..<length (sequence pf)]) t = Inr t'"
  show "\<forall>b \<in> set (snd (snd t')). Q b"
  proof (rule fold_err_invariant [where I = "\<lambda>st. \<forall>b \<in> set (snd (snd st)). Q b",
           OF step t])
    fix i u u'
    assume u: "\<forall>b \<in> set (snd (snd u)). Q b" and "c_term_step pf it i u = Inr u'"
    from c_term_step_fragments [OF this(2)] u assms(3) [OF it]
    show "\<forall>b \<in> set (snd (snd u')). Q b" by auto
  qed
qed

lemma internal_stop_step_fragments:
  assumes "internal_stop_step pf start_i stop_i st = Inr st'"
  shows "\<exists>mm. snd (snd st') =
           snd (snd st) @ [(drop start_i (take stop_i (sequence pf)), ''b'',
                            FStr (str_int (int start_i + 1) @ '':'' @ str_int (int stop_i + 1)),
                            mm)]"
  using assms
  by (cases st) (auto simp: internal_stop_step_def bind_err_eq_Inr split: option.splits)

lemma internal_fragments_invariant:
  assumes "internal_fragments pf bf = Inr bf'"
    and "\<forall>b \<in> set bf. Q b"
    and "\<And>s t u mm. Q (s, ''b'', FStr (t @ '':'' @ u), mm)"
  shows "\<forall>b \<in> set bf'. Q b"
proof (rule fold_err_invariant [where I = "\<lambda>bf. \<forall>b \<in> set bf. Q b",
         OF assms(1) [unfolded internal_fragments_def] assms(2)])
  fix start_i t t'
  assume t: "\<forall>b \<in> set t. Q b" and step: "internal_start_step pf start_i t = Inr t'"
  from step obtain mi a b where
    f: "fold_err (internal_stop_step pf start_i) [start_i + 2..<length (sequence pf)]
          (mi, 0, t) = Inr (a, b, t')"
    by (auto simp: internal_start_step_def Let_def bind_err_eq_Inr)
  have "\<forall>b \<in> set (snd (snd (a, b, t'))). Q b"
  proof (rule fold_err_invariant [where I = "\<lambda>st. \<forall>b \<in> set (snd (snd st)). Q b", OF f])
    show "\<forall>b \<in> set (snd (snd (mi, 0::real, t))). Q b" using t by simp
  next
    fix stop_i u u'
    assume u: "\<forall>b \<in> set (snd (snd u)). Q b" and "internal_stop_step pf start_i stop_i u = Inr u'"
    from internal_stop_step_fragments [OF this(2)] u assms(3)
    show "\<forall>b \<in> set (snd (snd u')). Q b" by auto
  qed
  then show "\<forall>b \<in> set t'. Q b" by simp
qed

lemma base_fragments_invariant:
  assumes "base_fragments_of set_iter pf ion_types = Inr bf"
    and "\<And>it i s mm. it \<in> set (set_iter (set ''abc'' \<inter> set ion_types)) \<Longrightarrow> Q (s, [it], FInt i, mm)"
    and "\<And>it i s mm. it \<in> set (set_iter (set ''xyz'' \<inter> set ion_types)) \<Longrightarrow> Q (s, [it], FInt i, mm)"
    and "\<And>s t u mm. Q (s, ''b'', FStr (t @ '':'' @ u), mm)"
    and "\<And>s mm. Q (s, ''M'', FStr ''p'', mm)"
  shows "\<forall>b \<in> set bf. Q b"
proof -
  obtain n_mod_i n_mod_mass n_fragments where
    n: "n_term_fragments pf (set_iter (set ''abc'' \<inter> set ion_types)) (0, 0, [])
          = (n_mod_i, n_mod_mass, n_fragments)"
    by (metis prod_cases3)
  have qn: "\<forall>b \<in> set n_fragments. Q b"
    using n_term_fragments_invariant
            [of "(0, 0, [])" Q "set_iter (set ''abc'' \<inter> set ion_types)" pf] assms(2)
    unfolding n by simp
  from assms(1) n obtain c_mod_i c_mod_mass c_fragments m_fragments where
    c: "c_term_fragments pf (set_iter (set ''xyz'' \<inter> set ion_types))
          (case modifications pf of
             Some ms \<Rightarrow> (int (length ms) - 1, 0, n_fragments)
           | None \<Rightarrow> (0, n_mod_mass, n_fragments)) = Inr (c_mod_i, c_mod_mass, c_fragments)"
    and m: "(if CHR ''m'' \<in> set ion_types then internal_fragments pf c_fragments
             else Inr c_fragments) = Inr m_fragments"
    and bf: "bf = (if CHR ''p'' \<in> set ion_types then m_fragments @ [precursor_fragment pf]
                   else m_fragments)"
    by (auto simp: base_fragments_of_def bind_err_eq_Inr)
  have "\<forall>b \<in> set (snd (snd (c_mod_i, c_mod_mass, c_fragments))). Q b"
  proof (rule c_term_fragments_invariant [where Q = Q, OF c])
    show "\<forall>b \<in> set (snd (snd (case modifications pf of
             Some ms \<Rightarrow> (int (length ms) - 1, 0, n_fragments)
           | None \<Rightarrow> (0, n_mod_mass, n_fragments)))). Q b"
      using qn by (cases "modifications pf") simp_all
    show "\<And>it i s mm. it \<in> set (set_iter (set ''xyz'' \<inter> set ion_types))
            \<Longrightarrow> Q (s, [it], FInt i, mm)"
      by (rule assms(3))
  qed
  then have qc: "\<forall>b \<in> set c_fragments. Q b" by simp
  have qm: "\<forall>b \<in> set m_fragments. Q b"
  proof (cases "CHR ''m'' \<in> set ion_types")
    case True
    with m have "internal_fragments pf c_fragments = Inr m_fragments" by simp
    from internal_fragments_invariant [OF this qc assms(4)] show ?thesis .
  next
    case False
    with m qc show ?thesis by simp
  qed
  with bf assms(5) show ?thesis
    by (auto simp: precursor_fragment_def)
qed

lemma annot_type_of_base:
  "annot_type_of [it] (FInt i) = it # str_int i"
  "annot_type_of ''b'' (FStr (t @ '':'' @ u)) = ''m'' @ t @ '':'' @ u"
  "annot_type_of ''M'' (FStr ''p'') = ''p''"
  by (simp_all add: annot_type_of_def)

subsection \<open>Immonium ions\<close>

lemma immonium_fragments_eq:
  "map_err (immonium_fragment P) xs =
     Inr (map (\<lambda>(aa, m).
                 (\<lparr>ion_type = ''I'' @ [aa], neutral_loss = None, isotope = 0,
                   charge = Some 1, adduct = ''[M+1H]'', analyte_number = None,
                   mz_delta = None\<rparr>, m - (mass_CO P - mass_H P))) xs)"
  by (rule map_err_all_Inr) (auto simp: immonium_fragment_eq)

lemma charged_fragments_not_immonium:
  assumes "set (set_iter (set ''abc'' \<inter> set ion_types)) \<subseteq> set ''abc''"
    and "set (set_iter (set ''xyz'' \<inter> set ion_types)) \<subseteq> set ''xyz''"
    and "base_fragments_of set_iter pf ion_types = Inr bf"
    and "map_err (charged_fragment P) (List.product bf cs) = Inr cf"
    and "(F, M) \<in> set cf"
  shows "take 1 (ion_type F) \<noteq> ''I''"
proof -
  from map_err_Inr_set [OF assms(4), of "(F, M)"] assms(5) obtain s it fi mm c where
    b: "(s, it, fi, mm) \<in> set bf" and "charged_fragment P ((s, it, fi, mm), c) = Inr (F, M)"
    by auto
  from charged_fragment_Inr(1) [OF this(2)] have
    "FragmentAnnotation_init (annot_type_of it fi) None 0 (Some c) None None None = Inr F" .
  from generated_annotation(3) [OF this] have F: "ion_type F = annot_type_of it fi"
    by simp
  have "\<forall>b \<in> set bf. (\<lambda>(s, it, fi, mm). take 1 (annot_type_of it fi) \<noteq> ''I'') b"
  proof (rule base_fragments_invariant [OF assms(3)])
    fix it i s mm
    assume "it \<in> set (set_iter (set ''abc'' \<inter> set ion_types))"
    with assms(1) have "it \<in> set ''abc''" by blast
    then show "(\<lambda>(s, it, fi, mm). take 1 (annot_type_of it fi) \<noteq> ''I'') (s, [it], FInt i, mm)"
      by (auto simp: annot_type_of_base)
  next
    fix it i s mm
    assume "it \<in> set (set_iter (set ''xyz'' \<inter> set ion_types))"
    with assms(2) have "it \<in> set ''xyz''" by blast
    then show "(\<lambda>(s, it, fi, mm). take 1 (annot_type_of it fi) \<noteq> ''I'') (s, [it], FInt i, mm)"
      by (auto simp: annot_type_of_base)
  next
    fix s t u mm
    show "(\<lambda>(s, it, fi, mm). take 1 (annot_type_of it fi) \<noteq> ''I'')
            (s, ''b'', FStr (t @ '':'' @ u), mm)"
      by (simp add: annot_type_of_def)
  next
    fix s mm
    show "(\<lambda>(s, it, fi, mm). take 1 (annot_type_of it fi) \<noteq> ''I'') (s, ''M'', FStr ''p'', mm)"
      by (simp add: annot_type_of_base)
  qed
  with b F show ?thesis by auto
qed

text \<open>
  C8: when \<open>I\<close> is requested, the immonium ions of the result (the entries without a
  neutral loss whose ion type starts with \<open>I\<close>) are, counted with multiplicity, one entry
  \<open>I\<close>\<^emph>\<open>aa\<close> for every entry \<open>(aa, m)\<close> of the residue mass table but the wildcard \<open>X\<close>,
  with charge 1 and mass \<open>m\<close> minus the mass of CO plus the mass of H; the table has one
  entry for each of its residue codes; the peptide does not occur on the right-hand side.
\<close>

theorem immonium_ions:
  assumes "CHR ''I'' \<in> set ion_types"
    and "set_iter_ok set_iter (set ''abc'' \<inter> set ion_types)"
    and "set_iter_ok set_iter (set ''xyz'' \<inter> set ion_types)"
    and "distinct (map fst (std_aa_mass P))"
    and "get_theoretical_fragments P set_iter pf ion_types max_charge neutral_losses = Inr out"
  shows "mset (filter (\<lambda>(F, M). take 1 (ion_type F) = ''I'' \<and> neutral_loss F = None) out)
         = mset (map (\<lambda>(aa, m).
                        (\<lparr>ion_type = ''I'' @ [aa], neutral_loss = None, isotope = 0,
                          charge = Some 1, adduct = ''[M+1H]'', analyte_number = None,
                          mz_delta = None\<rparr>, m - mass_CO P + mass_H P))
                  (filter (\<lambda>(aa, m). aa \<noteq> CHR ''X'') (aa_mass P)))
       \<and> distinct (map fst (aa_mass P))"
proof
  let ?imm_pred = "\<lambda>(F, M). take 1 (ion_type F) = ''I'' \<and> neutral_loss F = None"
  let ?table = "filter (\<lambda>(aa, m). aa \<noteq> CHR ''X'') (aa_mass P)"
  let ?imm = "map (\<lambda>(aa, m).
                 (\<lparr>ion_type = ''I'' @ [aa], neutral_loss = None, isotope = 0,
                   charge = Some 1, adduct = ''[M+1H]'', analyte_number = None,
                   mz_delta = None\<rparr>, m - (mass_CO P - mass_H P))) ?table"
  let ?nls = "case neutral_losses of None \<Rightarrow> [(None, 0)] | Some nls \<Rightarrow> nls"
  from get_theoretical_fragments_Inr(3) [OF assms(5)] obtain fm losses where
    fm: "fragments_masses_of P set_iter pf ion_types max_charge = Inr fm"
    and losses: "neutral_loss_fragments ?nls fm = Inr losses"
    and out: "out = sort_key snd (fm @ losses)"
    by blast
  from fragments_masses_charged [OF fm] assms(1) obtain bf cf imm where
    bf: "base_fragments_of set_iter pf ion_types = Inr bf"
    and cf: "map_err (charged_fragment P) (List.product bf [1..max_charge]) = Inr cf"
    and imm: "map_err (immonium_fragment P) ?table = Inr imm"
    and fm_eq: "fm = cf @ imm"
    by auto
  from imm have imm_eq: "imm = ?imm"
    by (simp add: immonium_fragments_eq)
  have sub: "set (set_iter (set ''abc'' \<inter> set ion_types)) \<subseteq> set ''abc''"
            "set (set_iter (set ''xyz'' \<inter> set ion_types)) \<subseteq> set ''xyz''"
    using assms(2,3) by (simp_all add: set_iter_ok_def)
  have f_cf: "filter ?imm_pred cf = []"
    unfolding filter_empty_conv
    using charged_fragments_not_immonium [OF sub bf cf] by auto
  have f_imm: "filter ?imm_pred imm = imm"
    unfolding filter_id_conv imm_eq by auto
  have f_losses: "filter ?imm_pred losses = []"
    unfolding filter_empty_conv
    using losses [unfolded neutral_loss_fragments_eq [OF fm]] by auto
  have "mset (filter ?imm_pred out) = mset (filter ?imm_pred (fm @ losses))"
    by (simp add: out)
  also have "\<dots> = mset imm"
    by (simp only: fm_eq filter_append f_cf f_imm f_losses append_Nil append_Nil2)
  also have "\<dots> = mset (map (\<lambda>(aa, m).
                        (\<lparr>ion_type = ''I'' @ [aa], neutral_loss = None, isotope = 0,
                          charge = Some 1, adduct = ''[M+1H]'', analyte_number = None,
                          mz_delta = None\<rparr>, m - mass_CO P + mass_H P)) ?table)"
    by (simp add: imm_eq algebra_simps)
  finally show "mset (filter ?imm_pred out)
         = mset (map (\<lambda>(aa, m).
                        (\<lparr>ion_type = ''I'' @ [aa], neutral_loss = None, isotope = 0,
                          charge = Some 1, adduct = ''[M+1H]'', analyte_number = None,
                          mz_delta = None\<rparr>, m - mass_CO P + mass_H P)) ?table)" .
next
  from assms(4) show "distinct (map fst (aa_mass P))"
    by (simp add: aa_mass_def distinct_update)
qed

theorem immonium_ions_witness:
  "mset (filter (\<lambda>(F, M). take 1 (ion_type F) = ''I'' \<and> neutral_loss F = None)
           (projr (get_theoretical_fragments pyteomics_std alphabetical
                     \<lparr>sequence = ''PEP'', modifications = None\<rparr> ''bI'' 1 None)))
     = mset (map (\<lambda>(aa, m).
                    (\<lparr>ion_type = ''I'' @ [aa], neutral_loss = None, isotope = 0,
                      charge = Some 1, adduct = ''[M+1H]'', analyte_number = None,
                      mz_delta = None\<rparr>, m - mass_CO pyteomics_std + mass_H pyteomics_std))
              (filter (\<lambda>(aa, m). aa \<noteq> CHR ''X'') (aa_mass pyteomics_std)))
   \<and> distinct (map fst (aa_mass pyteomics_std))"
proof -
  have I: "CHR ''I'' \<in> set ''bI''" by simp
  have n: "set_iter_ok alphabetical (set ''abc'' \<inter> set ''bI'')"
    by (auto simp: set_iter_ok_def alphabetical_def)
  have c: "set_iter_ok alphabetical (set ''xyz'' \<inter> set ''bI'')"
    by (auto simp: set_iter_ok_def alphabetical_def)
  have d: "distinct (map fst (std_aa_mass pyteomics_std))"
    by (simp add: pyteomics_std_def)
  have "\<exists>out. get_theoretical_fragments pyteomics_std alphabetical
           \<lparr>sequence = ''PEP'', modifications = None\<rparr> ''bI'' 1 None = Inr out"
    by (simp add: gen_eval)
  then obtain out where out: "get_theoretical_fragments pyteomics_std alphabetical
           \<lparr>sequence = ''PEP'', modifications = None\<rparr> ''bI'' 1 None = Inr out"
    by blast
  from immonium_ions [OF I n c d out] show ?thesis
    by (simp only: out sum.sel)
qed

subsection \<open>The masses of the b ions\<close>

lemma set_iter_singleton:
  assumes "set_iter_ok set_iter S" and "S = {x}"
  shows "set_iter S = [x]"
proof (cases "set_iter S")
  case Nil
  with assms show ?thesis by (simp add: set_iter_ok_def)
next
  case (Cons y ys)
  with assms have "y = x" and "set ys \<subseteq> {x}" and "y \<notin> set ys"
    by (auto simp: set_iter_ok_def)
  then have "ys = []" by (cases ys) auto
  with Cons \<open>y = x\<close> show ?thesis by simp
qed

lemma set_iter_empty:
  assumes "set_iter_ok set_iter S" and "S = {}"
  shows "set_iter S = []"
  using assms by (simp add: set_iter_ok_def)

lemma n_term_steps_unmodified:
  assumes "modifications pf = None"
  shows "fold (n_term_step pf it) is (mod_i, mod_mass, bf) =
           (mod_i, mod_mass,
            bf @ map (\<lambda>i. (take i (sequence pf), [it], FInt (int i), mod_mass)) is)"
  using assms
  by (induction "is" arbitrary: bf) (simp_all add: n_term_step_def)

lemma base_fragments_b_unmodified:
  assumes "modifications pf = None"
    and "set_iter_ok set_iter (set ''abc'' \<inter> set ''b'')"
    and "set_iter_ok set_iter (set ''xyz'' \<inter> set ''b'')"
  shows "base_fragments_of set_iter pf ''b'' =
           Inr (map (\<lambda>i. (take i (sequence pf), ''b'', FInt (int i), 0))
                  [1..<length (sequence pf)])"
proof -
  have n: "set_iter (set ''abc'' \<inter> set ''b'') = ''b''"
    by (rule set_iter_singleton [OF assms(2)]) auto
  have c: "set_iter (set ''xyz'' \<inter> set ''b'') = []"
    by (rule set_iter_empty [OF assms(3)]) auto
  show ?thesis
    unfolding base_fragments_of_def n c
    by (simp add: n_term_fragments_def c_term_fragments_def
          n_term_steps_unmodified [OF assms(1)] assms(1))
qed

lemma sum_aa_Inr:
  assumes "\<forall>r \<in> set s. map_of tab r \<noteq> None"
  shows "sum_aa tab s = Inr (sum_list (map (\<lambda>r. the (map_of tab r)) s))"
  using assms by (induction s) auto

lemma sum_list_pos_real:
  fixes xs :: "real list"
  assumes "xs \<noteq> []" and "\<forall>x \<in> set xs. 0 < x"
  shows "0 < sum_list xs"
  using assms
proof (induction xs)
  case Nil
  then show ?case by simp
next
  case (Cons x xs)
  show ?case
  proof (cases "xs = []")
    case True
    with Cons.prems show ?thesis by simp
  next
    case False
    with Cons have "0 < sum_list xs" and "0 < x" by simp_all
    then show ?thesis by simp
  qed
qed

lemma prefix_mass_strict:
  fixes w :: "'a \<Rightarrow> real"
  assumes "\<forall>r \<in> set s. 0 < w r" and "i < j" and "j \<le> length s"
  shows "sum_list (map w (take i s)) < sum_list (map w (take j s))"
proof -
  let ?d = "drop i (take j s)"
  have split: "take j s = take i s @ ?d"
    using assms(2) append_take_drop_id [of i "take j s"] by (simp add: min_def)
  have "?d \<noteq> []" using assms(2,3) by simp
  moreover have "set ?d \<subseteq> set s"
    by (meson set_drop_subset set_take_subset subset_trans)
  ultimately have "0 < sum_list (map w ?d)"
    using assms(1) by (intro sum_list_pos_real) auto
  moreover have "sum_list (map w (take j s))
                   = sum_list (map w (take i s)) + sum_list (map w ?d)"
    using arg_cong [OF split, of "\<lambda>xs. sum_list (map w xs)"] by simp
  ultimately show ?thesis by simp
qed

lemma product_single: "List.product xs [y] = map (\<lambda>x. (x, y)) xs"
  by (induction xs) simp_all

lemma b_annotation:
  "FragmentAnnotation_init (annot_type_of ''b'' (FInt i)) None 0 (Some 1) None None None =
     Inr \<lparr>ion_type = ''b'' @ str_int i, neutral_loss = None, isotope = 0, charge = Some 1,
          adduct = ''[M+1H]'', analyte_number = None, mz_delta = None\<rparr>"
  by (simp add: annot_type_of_def FragmentAnnotation_init_def charge_setter_def
        mz_delta_setter_def str_opt_int_def str_int_def [of 1] str_nat.simps [of "Suc 0"]
        digit_char_def)

text \<open>
  C9, as amended: for an unmodified peptide whose residues all have a strictly positive
  mass in the residue table (the table gives the wildcard \<open>X\<close> the mass 0), the generator,
  asked for the ion type \<open>b\<close> at charge 1, returns the ions \<open>b1\<close>, ..., \<open>b(n-1)\<close> in this
  order, and their masses are strictly increasing.
\<close>

theorem b_ions_strictly_increasing:
  assumes "modifications pf = None"
    and "CHR ''B'' \<notin> set (sequence pf)" and "CHR ''Z'' \<notin> set (sequence pf)"
    and "\<forall>r \<in> set (sequence pf).
           (case map_of (aa_mass P) r of None \<Rightarrow> False | Some m \<Rightarrow> 0 < m)"
    and "map_of (std_ion_comp P) ''b'' = Some ic"
    and "set_iter_ok set_iter (set ''abc'' \<inter> set ''b'')"
    and "set_iter_ok set_iter (set ''xyz'' \<inter> set ''b'')"
  shows "\<exists>out. get_theoretical_fragments P set_iter pf ''b'' 1 None = Inr out
           \<and> map (\<lambda>(F, M). (ion_type F, charge F)) out
               = map (\<lambda>i. (''b'' @ str_int (int i), Some 1)) [1..<length (sequence pf)]
           \<and> sorted_wrt (<) (map snd out)"
proof -
  let ?s = "sequence pf"
  let ?w = "\<lambda>r. the (map_of (aa_mass P) r)"
  let ?K = "mass_H2O P + ic + mass_proton P"
  let ?annot = "\<lambda>i. \<lparr>ion_type = ''b'' @ str_int (int i), neutral_loss = None, isotope = 0,
                      charge = Some 1, adduct = ''[M+1H]'', analyte_number = None,
                      mz_delta = None\<rparr>"
  let ?g = "\<lambda>i. (?annot i, sum_list (map ?w (take i ?s)) + ?K)"
  let ?fm = "map ?g [1..<length ?s]"
  have pos: "\<forall>r \<in> set ?s. 0 < ?w r"
    using assms(4) by (auto split: option.splits)
  have known: "\<forall>r \<in> set ?s. map_of (aa_mass P) r \<noteq> None"
    using assms(4) by (auto split: option.splits)
  have charged: "charged_fragment P ((take i ?s, ''b'', FInt (int i), 0), 1) = Inr (?g i)" for i
  proof -
    have "\<forall>r \<in> set (take i ?s). map_of (aa_mass P) r \<noteq> None"
      using known by (meson in_set_takeD)
    from sum_aa_Inr [OF this]
    have "fast_mass P (take i ?s) ''b'' 1 (aa_mass P)
            = Inr (sum_list (map ?w (take i ?s)) + ?K)"
      by (simp add: fast_mass_def assms(5) add.assoc)
    then show ?thesis
      by (simp add: charged_fragment_def b_annotation)
  qed
  have fm: "fragments_masses_of P set_iter pf ''b'' 1 = Inr ?fm"
  proof -
    have "map_err (charged_fragment P)
            (List.product (map (\<lambda>i. (take i ?s, ''b'', FInt (int i), 0)) [1..<length ?s]) [1..1])
          = Inr ?fm"
      by (simp add: map_err_eq_Inr product_single comp_def charged)
    then show ?thesis
      by (simp add: fragments_masses_of_def base_fragments_b_unmodified [OF assms(1,6,7)])
  qed
  have mono: "sorted_wrt (<) (map snd ?fm)"
  proof -
    have "sorted_wrt (\<lambda>i j. snd (?g i) < snd (?g j)) [1..<length ?s]"
    proof (rule sorted_wrt_mono_rel [OF _ sorted_wrt_upt])
      fix i j
      assume "i \<in> set [1..<length ?s]" "j \<in> set [1..<length ?s]" "i < j"
      then have "i < j" "j \<le> length ?s" by simp_all
      from prefix_mass_strict [OF pos this] show "snd (?g i) < snd (?g j)" by simp
    qed
    then show ?thesis by (simp only: sorted_wrt_map)
  qed
  then have "sorted (map snd ?fm)" by (rule strict_sorted_imp_sorted)
  then have id: "sort_key snd ?fm = ?fm" by (rule sort_key_id_if_sorted)
  have "get_theoretical_fragments P set_iter pf ''b'' 1 None = Inr ?fm"
    using assms(2,3) fm id
    by (simp add: get_theoretical_fragments_def unsorted_fragments_def
          neutral_loss_fragments_def named_losses_def)
  moreover have "map (\<lambda>(F, M). (ion_type F, charge F)) ?fm
               = map (\<lambda>i. (''b'' @ str_int (int i), Some 1)) [1..<length ?s]"
    by simp
  ultimately show ?thesis using mono by blast
qed

theorem b_ions_strictly_increasing_witness:
  "\<exists>out. get_theoretical_fragments pyteomics_std alphabetical
            \<lparr>sequence = ''PEPTIDE'', modifications = None\<rparr> ''b'' 1 None = Inr out
      \<and> map (\<lambda>(F, M). (ion_type F, charge F)) out
          = [(''b1'', Some 1), (''b2'', Some 1), (''b3'', Some 1), (''b4'', Some 1),
             (''b5'', Some 1), (''b6'', Some 1)]
      \<and> sorted_wrt (<) (map snd out)"
proof -
  have m: "modifications \<lparr>sequence = ''PEPTIDE'', modifications = None\<rparr> = None"
    and B: "CHR ''B'' \<notin> set (sequence \<lparr>sequence = ''PEPTIDE'', modifications = None\<rparr>)"
    and Z: "CHR ''Z'' \<notin> set (sequence \<lparr>sequence = ''PEPTIDE'', modifications = None\<rparr>)"
    by simp_all
  have r: "\<forall>r \<in> set (sequence \<lparr>sequence = ''PEPTIDE'', modifications = None\<rparr>).
             (case map_of (aa_mass pyteomics_std) r of None \<Rightarrow> False | Some m \<Rightarrow> 0 < m)"
    by (simp add: aa_mass_def pyteomics_std_def)
  have ic: "map_of (std_ion_comp pyteomics_std) ''b'' = Some (- 18.01056)"
    by (simp add: pyteomics_std_def)
  have n: "set_iter_ok alphabetical (set ''abc'' \<inter> set ''b'')"
    by (auto simp: set_iter_ok_def alphabetical_def)
  have c: "set_iter_ok alphabetical (set ''xyz'' \<inter> set ''b'')"
    by (auto simp: set_iter_ok_def alphabetical_def)
  from b_ions_strictly_increasing [OF m B Z r ic n c] show ?thesis
    by (simp add: upt_rec str_int_def str_nat.simps digit_char_def)
qed

lemma equal_pair_not_strict: "\<not> sorted_wrt (<) [a, a :: real]"
  by simp

lemma b_ions_AXA:
  "get_theoretical_fragments pyteomics_std alphabetical
      \<lparr>sequence = ''AXA'', modifications = None\<rparr> ''b'' 1 None
     = Inr [(\<lparr>ion_type = ''b1'', neutral_loss = None, isotope = 0, charge = Some 1,
              adduct = ''[M+1H]'', analyte_number = None, mz_delta = None\<rparr>, 72.04439),
            (\<lparr>ion_type = ''b2'', neutral_loss = None, isotope = 0, charge = Some 1,
              adduct = ''[M+1H]'', analyte_number = None, mz_delta = None\<rparr>, 72.04439)]"
  by (simp add: gen_eval)

text \<open>
  The claim as stated covers every unmodified peptide.  In \<open>AXA\<close> the second residue is
  the wildcard, of mass 0: \<open>b1\<close> and \<open>b2\<close> have the same mass.
\<close>

theorem b_ions_wildcard_counterexample:
  "(case get_theoretical_fragments pyteomics_std alphabetical
           \<lparr>sequence = ''AXA'', modifications = None\<rparr> ''b'' 1 None of
      Inl e \<Rightarrow> False
    | Inr out \<Rightarrow> map (\<lambda>(F, M). (ion_type F, M)) out
                   = [(''b1'', 72.04439), (''b2'', 72.04439)]
                 \<and> \<not> sorted_wrt (<) (map snd out))"
  by (simp add: b_ions_AXA equal_pair_not_strict del: sorted_wrt.simps)

subsection \<open>The modification mass of the terminal and the internal fragments\<close>

text \<open>
  C1: the peptide \<open>PEPTIDE\<close> with a modification of mass 15.9949 at index 3, ion types
  \<open>ab\<close>, charge 1.  The modification belongs to the prefixes of length 4 and more.  The
  cursor and the accumulator of the N-terminal walk are set before the loop over the ion
  types, so the second ion type starts with what the first has accumulated: when \<open>a\<close>
  comes first, \<open>b1\<close>, \<open>b2\<close> and \<open>b3\<close> carry the modification (\<open>b1\<close> is 114.05494; it is
  98.06004 when \<open>b\<close> is requested alone), and when \<open>b\<close> comes first, \<open>a1\<close>, \<open>a2\<close> and
  \<open>a3\<close> do (\<open>a1\<close> is 86.06002 instead of 70.06512).
\<close>

theorem second_ion_type_keeps_accumulator:
  "map_sum id (map (\<lambda>(F, M). (ion_type F, M)))
     (get_theoretical_fragments pyteomics_std alphabetical
        \<lparr>sequence = ''PEPTIDE'',
         modifications = Some [\<lparr>position = PInt 3, mass = 15.9949\<rparr>]\<rparr> ''ab'' 1 None)
     = Inr [(''a1'', 70.06512), (''b1'', 114.05494), (''a2'', 199.10771), (''b2'', 243.09753),
            (''a3'', 296.16047), (''b3'', 340.15029), (''a4'', 413.20305), (''b4'', 441.19797),
            (''a5'', 526.28711), (''b5'', 554.28203), (''a6'', 641.31405), (''b6'', 669.30897)]
   \<and> map_sum id (map (\<lambda>(F, M). (ion_type F, M)))
     (get_theoretical_fragments pyteomics_std reverse_alphabetical
        \<lparr>sequence = ''PEPTIDE'',
         modifications = Some [\<lparr>position = PInt 3, mass = 15.9949\<rparr>]\<rparr> ''ab'' 1 None)
     = Inr [(''a1'', 86.06002), (''b1'', 98.06004), (''a2'', 215.10261), (''b2'', 227.10263),
            (''a3'', 312.15537), (''b3'', 324.15539), (''a4'', 413.20305), (''b4'', 441.19797),
            (''a5'', 526.28711), (''b5'', 554.28203), (''a6'', 641.31405), (''b6'', 669.30897)]
   \<and> map_sum id (map (\<lambda>(F, M). (ion_type F, M)))
     (get_theoretical_fragments pyteomics_std alphabetical
        \<lparr>sequence = ''PEPTIDE'',
         modifications = Some [\<lparr>position = PInt 3, mass = 15.9949\<rparr>]\<rparr> ''b'' 1 None)
     = Inr [(''b1'', 98.06004), (''b2'', 227.10263), (''b3'', 324.15539), (''b4'', 441.19797),
            (''b5'', 554.28203), (''b6'', 669.30897)]"
  by (simp add: gen_eval)

text \<open>
  C2: the same peptide, ion type \<open>m\<close>.  The first internal fragment that reaches the
  modification, \<open>m2:5\<close> (start 1, stop 4), adds the modification itself, not its mass, to
  the accumulator: the generator raises and returns no fragment.  Without modifications
  the internal fragments are produced.
\<close>

theorem internal_modification_raises:
  "get_theoretical_fragments pyteomics_std alphabetical
     \<lparr>sequence = ''PEPTIDE'',
      modifications = Some [\<lparr>position = PInt 3, mass = 15.9949\<rparr>]\<rparr> ''m'' 1 None
     = Inl TypeError
   \<and> map_sum id (map (\<lambda>(F, M). (ion_type F, M)))
     (get_theoretical_fragments pyteomics_std alphabetical
        \<lparr>sequence = ''PEPTIDE'', modifications = None\<rparr> ''m'' 1 None)
     = Inr [(''m3:5'', 199.10772), (''m4:6'', 215.13902), (''m2:4'', 227.10263),
            (''m5:7'', 229.11828), (''m3:6'', 312.19178), (''m2:5'', 328.15031),
            (''m4:7'', 330.16596), (''m3:7'', 427.21872), (''m2:6'', 441.23437),
            (''m2:7'', 556.26131)]"
  by (simp add: gen_eval)

end
